theory Spec2Isabelle
  imports Main "HOL-Library.Sublist"
begin

section \<open>Go values used by the import and custom-object clients\<close>

text \<open>
  Go strings are byte sequences, so a Go \<^verbatim>\<open>string\<close> is a \<^typ>\<open>string\<close> (a list of
  8-bit characters).  Go's \<^verbatim>\<open>int\<close> is modelled by \<^typ>\<open>int\<close>; the places where the
  64-bit range matters (decoding a JSON number into an \<^verbatim>\<open>int\<close> field) check the range
  explicitly.  A Go slice is a list; a \<^verbatim>\<open>nil\<close> slice and an empty slice are both \<open>[]\<close>.
\<close>

definition DQ :: char where
  "DQ = CHR 0x22"

definition CRLF :: string where
  "CRLF = [CHR 0x0D, CHR 0x0A]"

subsection \<open>JSON values\<close>

text \<open>
  A JSON document as \<^verbatim>\<open>encoding/json\<close> sees it.  Object members keep their order of
  appearance, since the decoder processes them in that order.  Number literals are
  modelled by their integer value: the counters, identifiers and sequence numbers of this
  API are integers, and a \<^verbatim>\<open>float64\<close> holds every integer below \<open>2 ^ 53\<close> exactly.
  When a document is decoded into \<^verbatim>\<open>interface{}\<close>, the same datatype stands for the Go
  value: \<open>JNull\<close> is \<^verbatim>\<open>nil\<close>, \<open>JNumber\<close> a \<^verbatim>\<open>float64\<close>, \<open>JString\<close> a
  \<^verbatim>\<open>string\<close>, \<open>JArray\<close> a \<^verbatim>\<open>[]interface{}\<close> and \<open>JObject\<close> a
  \<^verbatim>\<open>map[string]interface{}\<close>.
\<close>

datatype json =
    JNull
  | JBool bool
  | JNumber int
  | JString string
  | JArray "json list"
  | JObject "(string \<times> json) list"

subsection \<open>Errors\<close>

datatype ctx_err = Canceled | DeadlineExceeded

text \<open>
  Every error value the modelled code can return.  \<open>ErrorString\<close> is \<^verbatim>\<open>errors.New\<close>;
  \<open>HTTPStatusError\<close> and \<open>APIError\<close> are what the client's helpers \<^verbatim>\<open>handleError\<close>
  and \<^verbatim>\<open>ErrorForReasons\<close> build; \<open>Panic\<close> is a run-time panic (an index out of range,
  a nil dereference).
\<close>

datatype error =
    EOF
  | ErrFieldCount
  | CSVParseError string
  | ReadError string
  | ContextError ctx_err
  | TransportError string
  | URLError string
  | ErrorString string
  | JSONError string
  | MapstructureError "string list"
  | HTTPStatusError string int
  | APIError int "json list"
  | Panic string

subsection \<open>\<^verbatim>\<open>fmt.Sprintf\<close>\<close>

text \<open>
  The fragment of \<^verbatim>\<open>fmt.Sprintf\<close> that the program's format strings use: the verbs
  \<^verbatim>\<open>%s\<close>, \<^verbatim>\<open>%d\<close>, \<^verbatim>\<open>%v\<close> and the escape \<^verbatim>\<open>%%\<close>, over string and int operands, together
  with the diagnostics \<^verbatim>\<open>fmt\<close> prints for a missing operand, an operand of the wrong type,
  a trailing percent sign and surplus operands.  Flags, widths and the other verbs are
  not modelled: any other verb character is rendered by the wrong-type rule.
\<close>

datatype arg = S string | I int

fun digits10 :: "nat \<Rightarrow> string" where
  "digits10 n =
     (if n < 10 then [''0123456789'' ! n]
      else digits10 (n div 10) @ [''0123456789'' ! (n mod 10)])"

definition Itoa :: "int \<Rightarrow> string" where
  "Itoa i = (if i < 0 then CHR ''-'' # digits10 (nat (- i)) else digits10 (nat i))"

fun arg_type :: "arg \<Rightarrow> string" where
  "arg_type (S x) = ''string''"
| "arg_type (I n) = ''int''"

fun arg_value :: "arg \<Rightarrow> string" where
  "arg_value (S x) = x"
| "arg_value (I n) = Itoa n"

definition bad_verb :: "char \<Rightarrow> arg \<Rightarrow> string" where
  "bad_verb v a = ''%!'' @ [v] @ ''('' @ arg_type a @ ''='' @ arg_value a @ '')''"

fun format_verb :: "char \<Rightarrow> arg \<Rightarrow> string" where
  "format_verb v (S x) =
     (if v = CHR ''s'' \<or> v = CHR ''v'' then x else bad_verb v (S x))"
| "format_verb v (I n) =
     (if v = CHR ''d'' \<or> v = CHR ''v'' then Itoa n else bad_verb v (I n))"

fun extra_args :: "arg list \<Rightarrow> string" where
  "extra_args [] = []"
| "extra_args [a] = arg_type a @ ''='' @ arg_value a"
| "extra_args (a # b # bs) = arg_type a @ ''='' @ arg_value a @ '', '' @ extra_args (b # bs)"

fun Sprintf :: "string \<Rightarrow> arg list \<Rightarrow> string" where
  "Sprintf [] [] = []"
| "Sprintf [] (a # as) = ''%!(EXTRA '' @ extra_args (a # as) @ '')''"
| "Sprintf [c] as = (if c = CHR ''%'' then ''%!(NOVERB)'' @ Sprintf [] as else c # Sprintf [] as)"
| "Sprintf (c # v # fmt) as =
     (if c \<noteq> CHR ''%'' then c # Sprintf (v # fmt) as
      else if v = CHR ''%'' then CHR ''%'' # Sprintf fmt as
      else (case as of
              [] \<Rightarrow> ''%!'' @ [v] @ ''(MISSING)'' @ Sprintf fmt []
            | a # as' \<Rightarrow> format_verb v a @ Sprintf fmt as'))"

text \<open>
  The number of integer placeholders of a format string: the \<^verbatim>\<open>%d\<close> verbs, read the way
  \<open>Sprintf\<close> scans (an escaped \<^verbatim>\<open>%%\<close> is not the start of a verb).
\<close>

fun int_placeholders :: "string \<Rightarrow> nat" where
  "int_placeholders (c # v # fmt) =
     (if c \<noteq> CHR ''%'' then int_placeholders (v # fmt)
      else if v = CHR ''d'' then Suc (int_placeholders fmt)
      else int_placeholders fmt)"
| "int_placeholders fmt = 0"

section \<open>bulk.go: the record reference resolver\<close>

record ImportObject =
  create :: string
  status :: string
  failures :: string

definition Leads :: ImportObject where
  "Leads = \<lparr> create = ''leads'',
             status = ''leads/batch/%d'',
             failures = ''leads/batch/%d/failures'' \<rparr>"

definition importObjects :: "string \<rightharpoonup> ImportObject" where
  "importObjects = [''lead'' \<mapsto> Leads]"

definition ImportObjectForAPIName :: "string \<Rightarrow> ImportObject" where
  "ImportObjectForAPIName apiName =
     (case importObjects apiName of
        Some obj \<Rightarrow> obj
      | None \<Rightarrow>
          \<lparr> create = Sprintf ''customobjects/%s/import'' [S apiName],
            status = Sprintf ''customobjects/%s/import/%%d/status'' [S apiName],
            failures = Sprintf ''customobjects/%s/import/%%d/failures'' [S apiName] \<rparr>)"

definition BatchComplete :: string where "BatchComplete = ''Complete''"
definition BatchQueued :: string where "BatchQueued = ''Queued''"
definition BatchImporting :: string where "BatchImporting = ''Importing''"
definition BatchFailed :: string where "BatchFailed = ''Failed''"

definition createImport :: string where "createImport = ''create bulk import''"
definition getImport :: string where "getImport = ''get import status''"
definition getImportFailures :: string where "getImportFailures = ''get import failures''"

section \<open>HTTP requests, responses and the surrounding client\<close>

text \<open>
  A \<^verbatim>\<open>context.Context\<close> is modelled by what \<^verbatim>\<open>ctx.Err()\<close> reports: \<open>None\<close> while the
  context is live, the reason once it is done.
\<close>

type_synonym Context = "ctx_err option"

definition Background :: Context where
  "Background = None"

record request =
  Method :: string
  URL :: string
  Header :: "(string \<times> string) list"
  ReqBody :: "string option"
  ReqContext :: Context

text \<open>
  A response body is a byte stream that the program hands to one of two standard
  library readers.  The byte-level lexers are not modelled: a body is given by what each
  of them produces from it.  \<open>as_json\<close> is the outcome of
  \<^verbatim>\<open>json.NewDecoder(body).Decode\<close> reading the first JSON value (a syntax error, a read
  error and the \<^verbatim>\<open>io.EOF\<close> of an empty body are errors).  \<open>as_csv\<close> is the sequence of
  lines \<^verbatim>\<open>csv.Reader\<close> lexes from the body, each either the fields of a record or the
  error on which lexing that line fails (a quoting error, a read error in mid-stream);
  the end of the list is the end of the stream.
\<close>

datatype csv_line = Row "string list" | Bad error

record body =
  as_json :: "error + json"
  as_csv :: "csv_line list"

record response =
  StatusCode :: int
  Body :: body

definition StatusOK :: int where "StatusOK = 200"
definition StatusNotFound :: int where "StatusNotFound = 404"
definition MethodGet :: string where "MethodGet = ''GET''"
definition MethodPost :: string where "MethodPost = ''POST''"

text \<open>
  The collaborators the two source files call but do not define.  \<open>url\<close> is
  \<^verbatim>\<open>Client.url\<close>, joining the base endpoint with path segments; \<open>doRequest\<close> is
  \<^verbatim>\<open>Client.doRequest\<close>, which authenticates and performs a request; \<open>url_error\<close> is
  the check \<^verbatim>\<open>http.NewRequest\<close> makes on the URL (\<open>None\<close> when it parses);
  \<open>random_bytes\<close> are the bytes \<^verbatim>\<open>multipart.NewWriter\<close> draws from the random source
  for its boundary; \<open>filterLeads\<close> is the operation label constant declared in the leads
  client.
\<close>

record env =
  url :: "string list \<Rightarrow> string"
  doRequest :: "request \<Rightarrow> error + response"
  url_error :: "string \<Rightarrow> error option"
  random_bytes :: string
  filterLeads :: string

definition NewRequestWithContext ::
    "env \<Rightarrow> Context \<Rightarrow> string \<Rightarrow> string \<Rightarrow> string option \<Rightarrow> error + request" where
  "NewRequestWithContext e ctx method u b =
     (case url_error e u of
        Some err \<Rightarrow> Inl err
      | None \<Rightarrow> Inr \<lparr> Method = method, URL = u, Header = [], ReqBody = b, ReqContext = ctx \<rparr>)"

text \<open>\<^verbatim>\<open>http.NewRequest\<close> wraps \<^verbatim>\<open>NewRequestWithContext\<close> using the background context.\<close>

definition NewRequest :: "env \<Rightarrow> string \<Rightarrow> string \<Rightarrow> string option \<Rightarrow> error + request" where
  "NewRequest e method u b = NewRequestWithContext e Background method u b"

definition Header_Add :: "string \<Rightarrow> string \<Rightarrow> request \<Rightarrow> request" where
  "Header_Add k v r = r\<lparr> Header := Header r @ [(k, v)] \<rparr>"

text \<open>
  Modelled from the spec: \<^verbatim>\<open>handleError\<close> is defined in the client, outside the two
  source files.  It builds the HTTP-status error, which carries the name of the failing
  operation and the numeric status.
\<close>

definition handleError :: "string \<Rightarrow> response \<Rightarrow> error" where
  "handleError label resp = HTTPStatusError label (StatusCode resp)"

text \<open>
  Modelled from the spec: \<^verbatim>\<open>ErrorForReasons\<close> is defined in the client, outside the two
  source files.  It builds the API error from the status and all the reasons passed.
\<close>

definition ErrorForReasons :: "int \<Rightarrow> json list \<Rightarrow> error" where
  "ErrorForReasons code reasons = APIError code reasons"

section \<open>Decoding JSON into Go structs\<close>

text \<open>
  \<^verbatim>\<open>encoding/json\<close> matches an object key to a struct field by the field's JSON name,
  preferring an exact match and accepting a case-insensitive one.  Folding is modelled
  for the ASCII letters.
\<close>

definition to_lower :: "char \<Rightarrow> char" where
  "to_lower c =
     (case map_of (zip ''ABCDEFGHIJKLMNOPQRSTUVWXYZ'' ''abcdefghijklmnopqrstuvwxyz'') c of
        Some d \<Rightarrow> d
      | None \<Rightarrow> c)"

definition EqualFold :: "string \<Rightarrow> string \<Rightarrow> bool" where
  "EqualFold s t = (map to_lower s = map to_lower t)"

definition json_field :: "string list \<Rightarrow> string \<Rightarrow> string option" where
  "json_field names key =
     (case find (\<lambda>n. n = key) names of
        Some n \<Rightarrow> Some n
      | None \<Rightarrow> find (\<lambda>n. EqualFold n key) names)"

text \<open>
  A JSON value decoded into a field of type \<^verbatim>\<open>int\<close> or \<^verbatim>\<open>string\<close>: \<^verbatim>\<open>null\<close> leaves
  the field as it is, a value of another JSON type is an unmarshal type error, and so is a
  number outside the 64-bit range.
\<close>

definition unmarshal_int :: "string \<Rightarrow> json \<Rightarrow> int \<Rightarrow> error + int" where
  "unmarshal_int field v old =
     (case v of
        JNull \<Rightarrow> Inr old
      | JNumber n \<Rightarrow>
          if - (2 ^ 63) \<le> n \<and> n < 2 ^ 63 then Inr n
          else Inl (JSONError (''json: cannot unmarshal number into Go struct field '' @ field @ '' of type int''))
      | _ \<Rightarrow> Inl (JSONError (''json: cannot unmarshal into Go struct field '' @ field @ '' of type int'')))"

definition unmarshal_string :: "string \<Rightarrow> json \<Rightarrow> string \<Rightarrow> error + string" where
  "unmarshal_string field v old =
     (case v of
        JNull \<Rightarrow> Inr old
      | JString s \<Rightarrow> Inr s
      | _ \<Rightarrow> Inl (JSONError (''json: cannot unmarshal into Go struct field '' @ field @ '' of type string'')))"

subsection \<open>The response envelope\<close>

text \<open>
  Modelled from the spec: the \<^verbatim>\<open>Response\<close> type is declared in the client, outside
  the two source files.  The envelope is a JSON object with a \<^verbatim>\<open>result\<close> payload, kept
  raw for a second decoding step, optional \<^verbatim>\<open>errors\<close> entries and a pagination token
  \<^verbatim>\<open>nextPageToken\<close>.  \<open>Result = None\<close> is the empty raw message of an envelope without
  a \<^verbatim>\<open>result\<close> member.  The error entries are kept as the JSON values received.
\<close>

record Response =
  Errors :: "json list"
  Result :: "json option"
  NextPageToken :: string

definition Response_zero :: Response where
  "Response_zero = \<lparr> Errors = [], Result = None, NextPageToken = [] \<rparr>"

definition Response_set :: "string \<Rightarrow> json \<Rightarrow> Response \<Rightarrow> error + Response" where
  "Response_set name v r =
     (if name = ''result'' then Inr (r\<lparr> Result := Some v \<rparr>)
      else if name = ''errors'' then
        (case v of
           JNull \<Rightarrow> Inr (r\<lparr> Errors := [] \<rparr>)
         | JArray es \<Rightarrow> Inr (r\<lparr> Errors := es \<rparr>)
         | _ \<Rightarrow> Inl (JSONError ''json: cannot unmarshal into Go struct field Response.errors''))
      else
        (case unmarshal_string ''Response.nextPageToken'' v (NextPageToken r) of
           Inl err \<Rightarrow> Inl err
         | Inr s \<Rightarrow> Inr (r\<lparr> NextPageToken := s \<rparr>)))"

fun Response_members :: "(string \<times> json) list \<Rightarrow> Response \<Rightarrow> error + Response" where
  "Response_members [] r = Inr r"
| "Response_members ((k, v) # kvs) r =
     (case json_field [''result'', ''errors'', ''nextPageToken''] k of
        None \<Rightarrow> Response_members kvs r
      | Some name \<Rightarrow>
          (case Response_set name v r of
             Inl err \<Rightarrow> Inl err
           | Inr r' \<Rightarrow> Response_members kvs r'))"

definition Decode_Response :: "body \<Rightarrow> error + Response" where
  "Decode_Response b =
     (case as_json b of
        Inl err \<Rightarrow> Inl err
      | Inr JNull \<Rightarrow> Inr Response_zero
      | Inr (JObject kvs) \<Rightarrow> Response_members kvs Response_zero
      | Inr _ \<Rightarrow> Inl (JSONError ''json: cannot unmarshal into Go value of type marketo.Response''))"

subsection \<open>Batch results\<close>

record BatchResult =
  BatchID :: int
  ImportID :: string
  Status :: string
  LeadsProcessed :: int
  Failures :: int
  Warnings :: int
  Message :: string
  ObjectsProcessed :: int
  ObjectName :: string
  Processed :: int

definition BatchResult_zero :: BatchResult where
  "BatchResult_zero =
     \<lparr> BatchID = 0, ImportID = [], Status = [], LeadsProcessed = 0, Failures = 0,
       Warnings = 0, Message = [], ObjectsProcessed = 0, ObjectName = [], Processed = 0 \<rparr>"

text \<open>
  The JSON names of the struct tags, in field order.  \<open>Processed\<close> is tagged
  \<^verbatim>\<open>json:"-"\<close> and is never decoded.
\<close>

definition BatchResult_names :: "string list" where
  "BatchResult_names =
     [''batchId'', ''importId'', ''status'', ''numOfLeadsProcessed'', ''numOfRowsFailed'',
      ''numOfRowsWithWarning'', ''message'', ''numOfObjectsProcessed'', ''objectApiName'']"

definition with_int ::
    "string \<Rightarrow> json \<Rightarrow> int \<Rightarrow> (int \<Rightarrow> BatchResult) \<Rightarrow> error + BatchResult" where
  "with_int field v old upd =
     (case unmarshal_int field v old of Inl err \<Rightarrow> Inl err | Inr n \<Rightarrow> Inr (upd n))"

definition with_string ::
    "string \<Rightarrow> json \<Rightarrow> string \<Rightarrow> (string \<Rightarrow> BatchResult) \<Rightarrow> error + BatchResult" where
  "with_string field v old upd =
     (case unmarshal_string field v old of Inl err \<Rightarrow> Inl err | Inr s \<Rightarrow> Inr (upd s))"

definition BatchResult_set :: "string \<Rightarrow> json \<Rightarrow> BatchResult \<Rightarrow> error + BatchResult" where
  "BatchResult_set name v r =
     (if name = ''batchId'' then
        with_int ''BatchResult.batchId'' v (BatchID r) (\<lambda>n. r\<lparr> BatchID := n \<rparr>)
      else if name = ''importId'' then
        with_string ''BatchResult.importId'' v (ImportID r) (\<lambda>s. r\<lparr> ImportID := s \<rparr>)
      else if name = ''status'' then
        with_string ''BatchResult.status'' v (Status r) (\<lambda>s. r\<lparr> Status := s \<rparr>)
      else if name = ''numOfLeadsProcessed'' then
        with_int ''BatchResult.numOfLeadsProcessed'' v (LeadsProcessed r)
          (\<lambda>n. r\<lparr> LeadsProcessed := n \<rparr>)
      else if name = ''numOfRowsFailed'' then
        with_int ''BatchResult.numOfRowsFailed'' v (Failures r) (\<lambda>n. r\<lparr> Failures := n \<rparr>)
      else if name = ''numOfRowsWithWarning'' then
        with_int ''BatchResult.numOfRowsWithWarning'' v (Warnings r) (\<lambda>n. r\<lparr> Warnings := n \<rparr>)
      else if name = ''message'' then
        with_string ''BatchResult.message'' v (Message r) (\<lambda>s. r\<lparr> Message := s \<rparr>)
      else if name = ''numOfObjectsProcessed'' then
        with_int ''BatchResult.numOfObjectsProcessed'' v (ObjectsProcessed r)
          (\<lambda>n. r\<lparr> ObjectsProcessed := n \<rparr>)
      else
        with_string ''BatchResult.objectApiName'' v (ObjectName r) (\<lambda>s. r\<lparr> ObjectName := s \<rparr>))"

fun BatchResult_members :: "(string \<times> json) list \<Rightarrow> BatchResult \<Rightarrow> error + BatchResult" where
  "BatchResult_members [] r = Inr r"
| "BatchResult_members ((k, v) # kvs) r =
     (case json_field BatchResult_names k of
        None \<Rightarrow> BatchResult_members kvs r
      | Some name \<Rightarrow>
          (case BatchResult_set name v r of
             Inl err \<Rightarrow> Inl err
           | Inr r' \<Rightarrow> BatchResult_members kvs r'))"

definition Unmarshal_BatchResult :: "json \<Rightarrow> error + BatchResult" where
  "Unmarshal_BatchResult v =
     (case v of
        JNull \<Rightarrow> Inr BatchResult_zero
      | JObject kvs \<Rightarrow> BatchResult_members kvs BatchResult_zero
      | _ \<Rightarrow> Inl (JSONError ''json: cannot unmarshal into Go value of type marketo.BatchResult''))"

fun Unmarshal_elements :: "json list \<Rightarrow> error + BatchResult list" where
  "Unmarshal_elements [] = Inr []"
| "Unmarshal_elements (v # vs) =
     (case Unmarshal_BatchResult v of
        Inl err \<Rightarrow> Inl err
      | Inr r \<Rightarrow>
          (case Unmarshal_elements vs of
             Inl err \<Rightarrow> Inl err
           | Inr rs \<Rightarrow> Inr (r # rs)))"

text \<open>
  \<^verbatim>\<open>json.Unmarshal(response.Result, &results)\<close> with \<open>results\<close> a slice of batch
  results: an empty raw message is a syntax error, \<^verbatim>\<open>null\<close> gives the nil slice.
\<close>

definition Unmarshal_BatchResults :: "json option \<Rightarrow> error + BatchResult list" where
  "Unmarshal_BatchResults raw =
     (case raw of
        None \<Rightarrow> Inl (JSONError ''unexpected end of JSON input'')
      | Some JNull \<Rightarrow> Inr []
      | Some (JArray vs) \<Rightarrow> Unmarshal_elements vs
      | Some _ \<Rightarrow> Inl (JSONError ''json: cannot unmarshal into Go value of type []marketo.BatchResult''))"

section \<open>bulk.go: the multipart upload encoder\<close>

text \<open>
  \<^verbatim>\<open>mime/multipart.Writer\<close> over the string builder the program gives it.  Writes to a
  string builder cannot fail, so neither can \<open>CreatePart\<close> nor \<open>Close\<close>.  The
  boundary is the lower-case hexadecimal rendering of the random bytes drawn when the
  writer is made.  \<open>CreatePart\<close> writes the header entries in key order; the program sets
  a single key.
\<close>

definition hex_byte :: "char \<Rightarrow> string" where
  "hex_byte c =
     [''0123456789abcdef'' ! ((of_char c :: nat) div 16),
      ''0123456789abcdef'' ! ((of_char c :: nat) mod 16)]"

definition randomBoundary :: "string \<Rightarrow> string" where
  "randomBoundary rnd = concat (map hex_byte rnd)"

record Writer =
  buf :: string
  boundary :: string
  lastpart :: bool

definition NewWriter :: "string \<Rightarrow> Writer" where
  "NewWriter rnd = \<lparr> buf = [], boundary = randomBoundary rnd, lastpart = False \<rparr>"

definition CreatePart :: "Writer \<Rightarrow> (string \<times> string) list \<Rightarrow> Writer" where
  "CreatePart wr header =
     wr\<lparr> buf := buf wr
            @ (if lastpart wr then CRLF @ ''--'' @ boundary wr @ CRLF
               else ''--'' @ boundary wr @ CRLF)
            @ concat (map (\<lambda>(k, v). k @ '': '' @ v @ CRLF) header)
            @ CRLF,
         lastpart := True \<rparr>"

definition Write :: "Writer \<Rightarrow> string \<Rightarrow> Writer" where
  "Write wr p = wr\<lparr> buf := buf wr @ p \<rparr>"

definition Close :: "Writer \<Rightarrow> Writer" where
  "Close wr = wr\<lparr> buf := buf wr @ CRLF @ ''--'' @ boundary wr @ ''--'' @ CRLF \<rparr>"

definition FormDataContentType :: "Writer \<Rightarrow> string" where
  "FormDataContentType wr =
     (let b = boundary wr;
          special = ''()<>@,;:/[]?= '' @ [CHR 0x5C, DQ]
      in ''multipart/form-data; boundary=''
         @ (if \<exists>c \<in> set b. c \<in> set special then [DQ] @ b @ [DQ] else b))"

text \<open>
  An \<^verbatim>\<open>io.Reader\<close> given by the bytes it yields and by how it ends: at \<^verbatim>\<open>io.EOF\<close>
  (\<open>None\<close>) or with a read error.  \<^verbatim>\<open>io.Copy\<close> writes every byte read and returns the
  read error, if any.
\<close>

datatype reader = Reader string "error option"

fun io_Copy :: "Writer \<Rightarrow> reader \<Rightarrow> Writer \<times> error option" where
  "io_Copy dst (Reader bytes err) = (Write dst bytes, err)"

section \<open>bulk.go: the bulk job client\<close>

text \<open>
  Each operation of the import API is read in three steps: the request it builds, the
  call of \<open>doRequest\<close>, and what it makes of the response.  The \<open>ctx\<close> argument is a
  parameter of every operation, as in the source.
\<close>

definition ImportAPI_Create_request ::
    "env \<Rightarrow> Context \<Rightarrow> ImportObject \<Rightarrow> reader \<Rightarrow> error + request" where
  "ImportAPI_Create_request e ctx obj file =
     (let mpWriter = NewWriter (random_bytes e);
          h = [(''Content-Disposition'',
                Sprintf (''form-data; name='' @ [DQ] @ ''file'' @ [DQ]
                         @ ''; filename='' @ [DQ] @ ''%s'' @ [DQ]) [S ''import.csv''])];
          fileWriter = CreatePart mpWriter h
      in case io_Copy fileWriter file of
           (written, Some err) \<Rightarrow> Inl err
         | (written, None) \<Rightarrow>
             (let closed = Close written
              in case NewRequest e MethodPost
                        (url e [''bulk'', ''v1'', Sprintf ''%s.json?format=csv'' [S (create obj)]])
                        (Some (buf closed)) of
                   Inl err \<Rightarrow> Inl err
                 | Inr request \<Rightarrow>
                     Inr (Header_Add ''Content-Type'' (FormDataContentType closed) request)))"

definition ImportAPI_Create_response :: "response \<Rightarrow> error + BatchResult list" where
  "ImportAPI_Create_response resp =
     (if StatusCode resp \<noteq> StatusOK then Inl (handleError createImport resp)
      else case Decode_Response (Body resp) of
             Inl err \<Rightarrow> Inl err
           | Inr response \<Rightarrow>
               if length (Errors response) > 0
               then Inl (ErrorForReasons (StatusCode resp) (Errors response))
               else (case Unmarshal_BatchResults (Result response) of
                       Inl err \<Rightarrow> Inl err
                     | Inr results \<Rightarrow> Inr results))"

definition ImportAPI_Create ::
    "env \<Rightarrow> Context \<Rightarrow> ImportObject \<Rightarrow> reader \<Rightarrow> error + BatchResult list" where
  "ImportAPI_Create e ctx obj file =
     (case ImportAPI_Create_request e ctx obj file of
        Inl err \<Rightarrow> Inl err
      | Inr request \<Rightarrow>
          (case doRequest e request of
             Inl err \<Rightarrow> Inl err
           | Inr resp \<Rightarrow> ImportAPI_Create_response resp))"

definition ImportAPI_Get_request ::
    "env \<Rightarrow> Context \<Rightarrow> ImportObject \<Rightarrow> int \<Rightarrow> error + request" where
  "ImportAPI_Get_request e ctx obj bid =
     NewRequest e MethodGet
       (url e [''bulk'', ''v1'', Sprintf ''%s.json'' [S (Sprintf (status obj) [I bid])]])
       None"

text \<open>The body of the loop over the decoded results, which derives \<open>Processed\<close>.\<close>

definition set_Processed :: "BatchResult \<Rightarrow> BatchResult" where
  "set_Processed r =
     (let r1 = r\<lparr> Processed := ObjectsProcessed r \<rparr>
      in if LeadsProcessed r > 0 then r1\<lparr> Processed := LeadsProcessed r \<rparr> else r1)"

definition ImportAPI_Get_response :: "response \<Rightarrow> error + BatchResult" where
  "ImportAPI_Get_response resp =
     (if StatusCode resp \<noteq> StatusOK then Inl (handleError getImport resp)
      else case Decode_Response (Body resp) of
             Inl err \<Rightarrow> Inl err
           | Inr response \<Rightarrow>
               if length (Errors response) > 0
               then Inl (ErrorForReasons (StatusCode resp) (Errors response))
               else (case Unmarshal_BatchResults (Result response) of
                       Inl err \<Rightarrow> Inl err
                     | Inr result \<Rightarrow>
                         if length result < 1 then Inl (ErrorString ''not found'')
                         else Inr (map set_Processed result ! 0)))"

definition ImportAPI_Get ::
    "env \<Rightarrow> Context \<Rightarrow> ImportObject \<Rightarrow> int \<Rightarrow> error + BatchResult" where
  "ImportAPI_Get e ctx obj bid =
     (case ImportAPI_Get_request e ctx obj bid of
        Inl err \<Rightarrow> Inl err
      | Inr request \<Rightarrow>
          (case doRequest e request of
             Inl err \<Rightarrow> Inl err
           | Inr resp \<Rightarrow> ImportAPI_Get_response resp))"

section \<open>bulk.go: the failure report decoder\<close>

text \<open>
  \<^verbatim>\<open>encoding/csv.Reader\<close> over the lexed lines of a body.  \<open>FieldsPerRecord\<close> starts at
  \<open>0\<close>; the first record read sets it, and a later record with another number of fields
  is returned together with \<open>ErrFieldCount\<close>.  \<open>Read\<close> returns the record, the error
  (\<open>None\<close> for \<^verbatim>\<open>nil\<close>) and the reader's next state.
\<close>

record Reader =
  FieldsPerRecord :: int
  input :: "csv_line list"

definition NewReader :: "body \<Rightarrow> Reader" where
  "NewReader b = \<lparr> FieldsPerRecord = 0, input = as_csv b \<rparr>"

definition Read :: "Reader \<Rightarrow> (string list \<times> error option) \<times> Reader" where
  "Read rd =
     (case input rd of
        [] \<Rightarrow> (([], Some EOF), rd)
      | Bad err # rest \<Rightarrow> (([], Some err), rd\<lparr> input := rest \<rparr>)
      | Row dst # rest \<Rightarrow>
          if FieldsPerRecord rd > 0 then
            (if int (length dst) \<noteq> FieldsPerRecord rd
             then ((dst, Some ErrFieldCount), rd\<lparr> input := rest \<rparr>)
             else ((dst, None), rd\<lparr> input := rest \<rparr>))
          else if FieldsPerRecord rd = 0 then
            ((dst, None), rd\<lparr> FieldsPerRecord := int (length dst), input := rest \<rparr>)
          else ((dst, None), rd\<lparr> input := rest \<rparr>))"

text \<open>
  The values of a failure's field map are the cells of the row, which are strings.
\<close>

record LeadImportFailure =
  Reason :: string
  Fields :: "string \<rightharpoonup> string"

text \<open>
  The inner loop \<^verbatim>\<open>for i := 0; i < len(header)-1; i++\<close>, storing cell \<open>i\<close> under the
  header's name \<open>i\<close>.
\<close>

function Fields_loop ::
    "string list \<Rightarrow> string list \<Rightarrow> nat \<Rightarrow> (string \<rightharpoonup> string) \<Rightarrow> (string \<rightharpoonup> string)" where
  "Fields_loop header record i m =
     (if int i < int (length header) - 1
      then Fields_loop header record (Suc i) (m(header ! i \<mapsto> record ! i))
      else m)"
  by pat_completeness auto
termination
  by (relation "measure (\<lambda>(header, record, i, m). length header - i)") auto

declare Fields_loop.simps [simp del]

text \<open>
  The outer loop \<^verbatim>\<open>for err == nil\<close>.  Indexing the record at \<open>len(header)-1\<close> panics
  when that index is negative or not below the record's length; when it is in range, so
  is every index the inner loop reads.
\<close>

function Failures_loop ::
    "string list \<Rightarrow> Reader \<Rightarrow> string list \<Rightarrow> error option \<Rightarrow> LeadImportFailure list
       \<Rightarrow> error + LeadImportFailure list" where
  "Failures_loop header rd record err fs =
     (if err = None then
        (if int (length header) - 1 < 0 \<or> int (length record) \<le> int (length header) - 1
         then Inl (Panic ''index out of range'')
         else
           (let failure = \<lparr> Reason = record ! (length header - 1),
                            Fields = Fields_loop header record 0 Map.empty \<rparr>
            in Failures_loop header (snd (Read rd)) (fst (fst (Read rd))) (snd (fst (Read rd)))
                 (fs @ [failure])))
      else Inr fs)"
  by pat_completeness auto
termination
  by (relation "measure (\<lambda>(header, rd, record, err, fs).
                   if err = None then Suc (length (input rd)) else 0)")
     (auto simp: Read_def split: list.splits csv_line.splits if_splits)

declare Failures_loop.simps [simp del]

definition ImportAPI_Failures_request ::
    "env \<Rightarrow> Context \<Rightarrow> ImportObject \<Rightarrow> int \<Rightarrow> error + request" where
  "ImportAPI_Failures_request e ctx obj bid =
     NewRequest e MethodGet
       (url e [''bulk'', ''v1'', Sprintf ''%s.json'' [S (Sprintf (failures obj) [I bid])]])
       None"

definition ImportAPI_Failures_response :: "response \<Rightarrow> error + LeadImportFailure list" where
  "ImportAPI_Failures_response resp =
     (if StatusCode resp = StatusNotFound then Inr []
      else if StatusCode resp \<noteq> StatusOK then Inl (handleError getImportFailures resp)
      else
        (let reader = NewReader (Body resp);
             header = fst (fst (Read reader));
             err = snd (fst (Read reader));
             reader1 = snd (Read reader)
         in case err of
              Some e \<Rightarrow> Inl e
            | None \<Rightarrow>
                Failures_loop header (snd (Read reader1)) (fst (fst (Read reader1)))
                  (snd (fst (Read reader1))) []))"

definition ImportAPI_Failures ::
    "env \<Rightarrow> Context \<Rightarrow> ImportObject \<Rightarrow> int \<Rightarrow> error + LeadImportFailure list" where
  "ImportAPI_Failures e ctx obj bid =
     (case ImportAPI_Failures_request e ctx obj bid of
        Inl err \<Rightarrow> Inl err
      | Inr request \<Rightarrow>
          (case doRequest e request of
             Inl err \<Rightarrow> Inl err
           | Inr resp \<Rightarrow> ImportAPI_Failures_response resp))"

text \<open>
  What the spec says a failure is, for a data row read against a header: the row's final
  cell is the reason, and every preceding cell is mapped under the header name of its
  column, the header's last name being left out.  When a name repeats in the header, the
  map keeps the cell of its last column.
\<close>

definition row_failure :: "string list \<Rightarrow> string list \<Rightarrow> LeadImportFailure" where
  "row_failure header row =
     \<lparr> Reason = last row, Fields = map_of (rev (zip (butlast header) (butlast row))) \<rparr>"

text \<open>
  The lines on which the scan of data rows ends, for a header of \<open>n\<close> columns: the
  end of the stream, a line that fails to lex, or a record with another number of fields.
\<close>

definition stops :: "nat \<Rightarrow> csv_line list \<Rightarrow> bool" where
  "stops n tail =
     (case tail of
        [] \<Rightarrow> True
      | Bad err # rest \<Rightarrow> True
      | Row r # rest \<Rightarrow> length r \<noteq> n)"

section \<open>custom.go: the dynamic record decoder\<close>

text \<open>
  A Go \<^verbatim>\<open>map[string]interface{}\<close> is an association list with distinct keys; its order
  stands for the order in which the map is iterated, which Go leaves unspecified.
  \<open>map_store\<close> is the assignment \<^verbatim>\<open>m[k] = v\<close>.
\<close>

fun map_store :: "string \<Rightarrow> json \<Rightarrow> (string \<times> json) list \<Rightarrow> (string \<times> json) list" where
  "map_store k v [] = [(k, v)]"
| "map_store k v ((k', v') # m) =
     (if k = k' then (k, v) # m else (k', v') # map_store k v m)"

fun store_members :: "(string \<times> json) list \<Rightarrow> (string \<times> json) list \<Rightarrow> (string \<times> json) list" where
  "store_members [] m = m"
| "store_members ((k, v) # kvs) m = store_members kvs (map_store k v m)"

text \<open>
  \<^verbatim>\<open>json.Unmarshal(response.Result, &raw)\<close> with \<open>raw\<close> a slice of maps: each
  element must be an object (or \<^verbatim>\<open>null\<close>, the nil map); a repeated key keeps its last
  value.
\<close>

fun Unmarshal_maps :: "json list \<Rightarrow> error + (string \<times> json) list list" where
  "Unmarshal_maps [] = Inr []"
| "Unmarshal_maps (v # vs) =
     (case (case v of
              JNull \<Rightarrow> Inr []
            | JObject kvs \<Rightarrow> Inr (store_members kvs [])
            | _ \<Rightarrow> Inl (JSONError ''json: cannot unmarshal into Go value of type map[string]interface {}'')) of
        Inl err \<Rightarrow> Inl err
      | Inr m \<Rightarrow>
          (case Unmarshal_maps vs of
             Inl err \<Rightarrow> Inl err
           | Inr ms \<Rightarrow> Inr (m # ms)))"

definition Unmarshal_raw :: "json option \<Rightarrow> error + (string \<times> json) list list" where
  "Unmarshal_raw raw =
     (case raw of
        None \<Rightarrow> Inl (JSONError ''unexpected end of JSON input'')
      | Some JNull \<Rightarrow> Inr []
      | Some (JArray vs) \<Rightarrow> Unmarshal_maps vs
      | Some _ \<Rightarrow> Inl (JSONError ''json: cannot unmarshal into Go value of type []map[string]interface {}''))"

subsection \<open>The struct and its tags\<close>

record CustomObjectResult =
  MarketoGUID :: string
  Sequence :: int
  Fields :: "string \<rightharpoonup> json"

definition CustomObjectResult_zero :: CustomObjectResult where
  "CustomObjectResult_zero = \<lparr> MarketoGUID = [], Sequence = 0, Fields = Map.empty \<rparr>"

text \<open>
  A struct field as reflection shows it: its Go name and the values of its \<^verbatim>\<open>json\<close> and
  \<^verbatim>\<open>mapstructure\<close> tag keys (empty when the key is absent from the tag).
\<close>

record struct_field =
  go_name :: string
  json_tag :: string
  mapstructure_tag :: string

definition CustomObjectResult_fields :: "struct_field list" where
  "CustomObjectResult_fields =
     [\<lparr> go_name = ''MarketoGUID'', json_tag = ''marketoGUID'', mapstructure_tag = [] \<rparr>,
      \<lparr> go_name = ''Sequence'', json_tag = ''seq'', mapstructure_tag = [] \<rparr>,
      \<lparr> go_name = ''Fields'', json_tag = ''-'', mapstructure_tag = '',remain'' \<rparr>]"

subsection \<open>\<^verbatim>\<open>mapstructure.Decode\<close>\<close>

text \<open>
  \<^verbatim>\<open>mapstructure.Decode\<close> runs a decoder with the default configuration: the tag key it
  reads is \<^verbatim>\<open>mapstructure\<close>, and input is not weakly typed.  Decoding a map into a
  struct, it names each field by the part of that tag before the first comma, or by the
  Go field name when that part is empty; it looks the name up in the map, exactly first
  and then by a case-insensitive comparison over the map's keys; a field tagged
  \<^verbatim>\<open>remain\<close> is set aside and receives the keys no other field used.
\<close>

fun split_on :: "char \<Rightarrow> string \<Rightarrow> string list" where
  "split_on c [] = [[]]"
| "split_on c (x # xs) =
     (if x = c then [] # split_on c xs
      else (case split_on c xs of
              [] \<Rightarrow> [[x]]
            | y # ys \<Rightarrow> (x # y) # ys))"

definition fieldName :: "struct_field \<Rightarrow> string" where
  "fieldName f =
     (let tagValue = (case split_on CHR '','' (mapstructure_tag f) of [] \<Rightarrow> [] | t # ts \<Rightarrow> t)
      in if tagValue \<noteq> [] then tagValue else go_name f)"

definition is_remain :: "struct_field \<Rightarrow> bool" where
  "is_remain f = (''remain'' \<in> set (tl (split_on CHR '','' (mapstructure_tag f))))"

definition find_key :: "(string \<times> json) list \<Rightarrow> string \<Rightarrow> (string \<times> json) option" where
  "find_key l name =
     (case map_of l name of
        Some v \<Rightarrow> Some (name, v)
      | None \<Rightarrow> find (\<lambda>(k, v). EqualFold k name) l)"

text \<open>
  The pass over the struct's fields: every field whose name has a key in the map takes
  that key's value, and the key leaves the set of unused keys.
\<close>

fun decode_fields ::
    "struct_field list \<Rightarrow> (string \<times> json) list \<Rightarrow> string list
       \<Rightarrow> (string \<times> json) list \<times> string list" where
  "decode_fields [] l unused = ([], unused)"
| "decode_fields (f # fs) l unused =
     (case find_key l (fieldName f) of
        None \<Rightarrow> decode_fields fs l unused
      | Some (k, v) \<Rightarrow>
          (case decode_fields fs l (removeAll k unused) of
             (assigned, unused') \<Rightarrow> ((go_name f, v) # assigned, unused')))"

text \<open>
  A value decoded into a field of kind string or int.  A nil value sets nothing.  Without
  weak typing a string field takes only a string, and an int field only a number, which it
  converts to an integer.  Anything else is reported with the field's name.  A number is
  kept by its integer value: the rounding of a \<^verbatim>\<open>float64\<close> beyond \<open>2 ^ 53\<close> and the
  conversion of a value outside the 64-bit range are not modelled.
\<close>

definition decodeString :: "string \<Rightarrow> json \<Rightarrow> string \<Rightarrow> string + string" where
  "decodeString name v old =
     (case v of
        JNull \<Rightarrow> Inr old
      | JString s \<Rightarrow> Inr s
      | _ \<Rightarrow> Inl ([CHR 0x27] @ name @ [CHR 0x27] @ '' expected type string, got unconvertible type''))"

definition decodeInt :: "string \<Rightarrow> json \<Rightarrow> int \<Rightarrow> string + int" where
  "decodeInt name v old =
     (case v of
        JNull \<Rightarrow> Inr old
      | JNumber n \<Rightarrow> Inr n
      | _ \<Rightarrow> Inl ([CHR 0x27] @ name @ [CHR 0x27] @ '' expected type int, got unconvertible type''))"

definition CustomObjectResult_set ::
    "string \<Rightarrow> json \<Rightarrow> CustomObjectResult \<Rightarrow> string + CustomObjectResult" where
  "CustomObjectResult_set name v out =
     (if name = ''MarketoGUID'' then
        (case decodeString name v (MarketoGUID out) of
           Inl msg \<Rightarrow> Inl msg
         | Inr s \<Rightarrow> Inr (out\<lparr> MarketoGUID := s \<rparr>))
      else
        (case decodeInt name v (Sequence out) of
           Inl msg \<Rightarrow> Inl msg
         | Inr n \<Rightarrow> Inr (out\<lparr> Sequence := n \<rparr>)))"

fun assign_fields ::
    "(string \<times> json) list \<Rightarrow> CustomObjectResult \<Rightarrow> string list \<times> CustomObjectResult" where
  "assign_fields [] out = ([], out)"
| "assign_fields ((name, v) # rest) out =
     (case CustomObjectResult_set name v out of
        Inl msg \<Rightarrow> (case assign_fields rest out of (msgs, out') \<Rightarrow> (msg # msgs, out'))
      | Inr out1 \<Rightarrow> assign_fields rest out1)"

definition Decode :: "(string \<times> json) list \<Rightarrow> CustomObjectResult \<Rightarrow> error + CustomObjectResult" where
  "Decode l out =
     (case decode_fields (filter (\<lambda>f. \<not> is_remain f) CustomObjectResult_fields) l (map fst l) of
        (assigned, unused) \<Rightarrow>
          (case assign_fields assigned out of
             (errors, out1) \<Rightarrow>
               (let out2 =
                      (if (\<exists>f \<in> set CustomObjectResult_fields. is_remain f) \<and> unused \<noteq> []
                       then out1\<lparr> Fields := Fields out1 ++ map_of (filter (\<lambda>(k, v). k \<in> set unused) l) \<rparr>
                       else out1)
                in if errors \<noteq> [] then Inl (MapstructureError errors) else Inr out2)))"

subsection \<open>Filter\<close>

text \<open>
  The loop that decodes each raw record into its slot of the result slice, which starts
  out zeroed; the first record that fails to decode fails the call.
\<close>

fun Filter_loop :: "(string \<times> json) list list \<Rightarrow> error + CustomObjectResult list" where
  "Filter_loop [] = Inr []"
| "Filter_loop (l # raw) =
     (case Decode l CustomObjectResult_zero of
        Inl err \<Rightarrow> Inl err
      | Inr r \<Rightarrow>
          (case Filter_loop raw of
             Inl err \<Rightarrow> Inl err
           | Inr rs \<Rightarrow> Inr (r # rs)))"

text \<open>
  The query builder is not part of the two source files: \<open>query\<close> is the outcome of
  \<^verbatim>\<open>q.Values()\<close> after the options are applied, encoded.  The source adds the content
  type header before it checks the error of \<^verbatim>\<open>http.NewRequest\<close>, so a request that
  cannot be built is a nil dereference.
\<close>

definition CustomObjects_Filter_request ::
    "env \<Rightarrow> Context \<Rightarrow> string \<Rightarrow> error + string \<Rightarrow> error + request" where
  "CustomObjects_Filter_request e ctx name query =
     (case query of
        Inl err \<Rightarrow> Inl err
      | Inr q \<Rightarrow>
          (case NewRequest e MethodPost
                  (url e [''rest'', ''v1'', ''customobjects'', Sprintf ''%s.json?_method=GET'' [S name]])
                  (Some q) of
             Inl err \<Rightarrow> Inl (Panic ''invalid memory address or nil pointer dereference'')
           | Inr request \<Rightarrow>
               Inr (Header_Add ''Content-Type'' ''application/x-www-form-urlencoded'' request)))"

definition CustomObjects_Filter_response ::
    "env \<Rightarrow> response \<Rightarrow> error + CustomObjectResult list \<times> string" where
  "CustomObjects_Filter_response e resp =
     (if StatusCode resp \<noteq> StatusOK then Inl (handleError (filterLeads e) resp)
      else case Decode_Response (Body resp) of
             Inl err \<Rightarrow> Inl err
           | Inr response \<Rightarrow>
               (case Unmarshal_raw (Result response) of
                  Inl err \<Rightarrow> Inl err
                | Inr raw \<Rightarrow>
                    (case Filter_loop raw of
                       Inl err \<Rightarrow> Inl err
                     | Inr results \<Rightarrow> Inr (results, NextPageToken response))))"

definition CustomObjects_Filter ::
    "env \<Rightarrow> Context \<Rightarrow> string \<Rightarrow> error + string \<Rightarrow> error + CustomObjectResult list \<times> string" where
  "CustomObjects_Filter e ctx name query =
     (case CustomObjects_Filter_request e ctx name query of
        Inl err \<Rightarrow> Inl err
      | Inr request \<Rightarrow>
          (case doRequest e request of
             Inl err \<Rightarrow> Inl err
           | Inr resp \<Rightarrow> CustomObjects_Filter_response e resp))"

section \<open>Reading a multipart body back\<close>

text \<open>
  The program only writes multipart bodies.  To state what a receiver recovers from one,
  this section models \<^verbatim>\<open>mime/multipart.Reader\<close> over a body that is wholly available:
  \<^verbatim>\<open>NextPart\<close> is called until it reports the end, and every part is read to its end.
  The names follow the library's.  The reader starts with the line break \<^verbatim>\<open>CRLF\<close> and
  switches to a bare line feed when the first delimiter line ends in one.

  Not modelled: the limit of 4096 bytes on a line read between parts; in a part's header,
  continuation lines and the canonical spelling and validation of keys; the decoding of
  a part whose transfer encoding is quoted-printable.  None of them is met on a body whose
  only header is the one \<open>Create\<close> writes.
\<close>

subsection \<open>Lines\<close>

text \<open>
  \<^verbatim>\<open>bufio.Reader.ReadSlice('\n')\<close> on the input that remains: whether a line feed is
  left, the line up to and including it, and the input after it.
\<close>

definition has_line :: "string \<Rightarrow> bool" where
  "has_line xs = (CHR 0x0A \<in> set xs)"

definition first_line :: "string \<Rightarrow> string" where
  "first_line xs = takeWhile (\<lambda>c. c \<noteq> CHR 0x0A) xs @ [CHR 0x0A]"

definition after_line :: "string \<Rightarrow> string" where
  "after_line xs = drop 1 (dropWhile (\<lambda>c. c \<noteq> CHR 0x0A) xs)"

definition skipLWSPChar :: "string \<Rightarrow> string" where
  "skipLWSPChar xs = dropWhile (\<lambda>c. c = CHR '' '' \<or> c = CHR 0x09) xs"

subsection \<open>Delimiter lines\<close>

definition isFinalBoundary :: "string \<Rightarrow> string \<Rightarrow> string \<Rightarrow> bool" where
  "isFinalBoundary b nl ln =
     (prefix (''--'' @ b @ ''--'') ln
      \<and> (skipLWSPChar (drop (length (''--'' @ b @ ''--'')) ln) = []
         \<or> skipLWSPChar (drop (length (''--'' @ b @ ''--'')) ln) = nl))"

text \<open>
  The line break in force after a line has been tested as a delimiter line: before the
  first part, a delimiter line that ends in a bare line feed drops the carriage return
  from the reader's line break.
\<close>

definition nl_after :: "string \<Rightarrow> string \<Rightarrow> nat \<Rightarrow> string \<Rightarrow> string" where
  "nl_after b nl partsRead ln =
     (if prefix (''--'' @ b) ln \<and> partsRead = 0
         \<and> skipLWSPChar (drop (length (''--'' @ b)) ln) = [CHR 0x0A]
      then drop 1 nl else nl)"

definition isBoundaryDelimiterLine :: "string \<Rightarrow> string \<Rightarrow> nat \<Rightarrow> string \<Rightarrow> bool" where
  "isBoundaryDelimiterLine b nl partsRead ln =
     (prefix (''--'' @ b) ln
      \<and> skipLWSPChar (drop (length (''--'' @ b)) ln) = nl_after b nl partsRead ln)"

text \<open>
  The loop of \<^verbatim>\<open>nextPart\<close> that reads lines up to the next delimiter line: it ends at
  the final delimiter, at the delimiter line of a new part (giving the line break in
  force and the input after the line), or in an error.  Before the first part any other
  line is skipped as preamble; after a part, only the line break that closes the part's
  body may come before the delimiter line.
\<close>

datatype delimiter = EndOfParts | PartFollows string string | NextPartError

lemma after_line_shorter: "has_line xs \<Longrightarrow> length (after_line xs) < length xs"
proof -
  assume "has_line xs"
  then have "dropWhile (\<lambda>c. c \<noteq> CHR 0x0A) xs \<noteq> []"
    by (auto simp: has_line_def dropWhile_eq_Nil_conv)
  then have "length (after_line xs) < length (dropWhile (\<lambda>c. c \<noteq> CHR 0x0A) xs)"
    by (simp add: after_line_def)
  also have "\<dots> \<le> length xs" by (rule length_dropWhile_le)
  finally show ?thesis .
qed

function next_boundary :: "string \<Rightarrow> string \<Rightarrow> nat \<Rightarrow> bool \<Rightarrow> string \<Rightarrow> delimiter" where
  "next_boundary b nl partsRead expectNewPart xs =
     (if \<not> has_line xs then (if isFinalBoundary b nl xs then EndOfParts else NextPartError)
      else if isBoundaryDelimiterLine b nl partsRead (first_line xs)
        then PartFollows (nl_after b nl partsRead (first_line xs)) (after_line xs)
      else if isFinalBoundary b nl (first_line xs) then EndOfParts
      else if expectNewPart then NextPartError
      else if partsRead = 0 then next_boundary b nl partsRead expectNewPart (after_line xs)
      else if first_line xs = nl then next_boundary b nl partsRead True (after_line xs)
      else NextPartError)"
  by pat_completeness auto
termination
  by (relation "measure (\<lambda>(b, nl, partsRead, expectNewPart, xs). length xs)")
     (auto simp: after_line_shorter)

declare next_boundary.simps [simp del]

subsection \<open>The body of a part\<close>

text \<open>
  \<^verbatim>\<open>matchAfterPrefix\<close>, given the input that follows a delimiter prefix when no more
  input will come: the prefix is a delimiter when it is followed by the end of input, a
  space, a tab, a carriage return, a line feed or two dashes.
\<close>

definition matchAfterPrefix :: "string \<Rightarrow> bool" where
  "matchAfterPrefix rest =
     (case rest of
        [] \<Rightarrow> True
      | c # cs \<Rightarrow>
          if c = CHR '' '' \<or> c = CHR 0x09 \<or> c = CHR 0x0D \<or> c = CHR 0x0A then True
          else if c = CHR ''-'' then (case cs of [] \<Rightarrow> False | c' # cs' \<Rightarrow> c' = CHR ''-'')
          else False)"

text \<open>
  \<^verbatim>\<open>bytes.Index\<close>: the input before the first occurrence of \<open>d\<close> and the input after
  that occurrence.
\<close>

fun Index :: "string \<Rightarrow> string \<Rightarrow> (string \<times> string) option" where
  "Index d [] = (if d = [] then Some ([], []) else None)"
| "Index d (x # xs) =
     (if prefix d (x # xs) then Some ([], drop (length d) (x # xs))
      else map_option (\<lambda>(pre, post). (x # pre, post)) (Index d xs))"

lemma Index_length:
  "Index d xs = Some (pre, post) \<Longrightarrow> length pre + length d + length post = length xs"
proof (induction xs arbitrary: pre)
  case Nil
  then show ?case by (auto split: if_splits)
next
  case (Cons x xs)
  show ?case
  proof (cases "prefix d (x # xs)")
    case True
    with Cons.prems have "pre = []" "post = drop (length d) (x # xs)" by auto
    moreover from True have "length d \<le> length (x # xs)" by (metis prefix_length_le)
    ultimately show ?thesis by simp
  next
    case False
    with Cons.prems obtain pre' where "Index d xs = Some (pre', post)" "pre = x # pre'"
      by auto
    with Cons.IH show ?thesis by fastforce
  qed
qed

text \<open>
  The scan of \<^verbatim>\<open>scanUntilBoundary\<close> for the line break followed by \<^verbatim>\<open>--boundary\<close>: a
  first occurrence that is a delimiter ends the body there, and the delimiter stays in
  the input; one that is not is part of the body, and the scan goes on after it.  A body
  that no delimiter ends is an error.
\<close>

function scan_nl :: "string \<Rightarrow> string \<Rightarrow> string \<Rightarrow> (string \<times> string) option" where
  "scan_nl nl b xs =
     (case Index (nl @ ''--'' @ b) xs of
        None \<Rightarrow> None
      | Some (pre, post) \<Rightarrow>
          if matchAfterPrefix post then Some (pre, nl @ ''--'' @ b @ post)
          else map_option (\<lambda>(c, r). (pre @ nl @ ''--'' @ b @ c, r)) (scan_nl nl b post))"
  by pat_completeness auto
termination
  by (relation "measure (\<lambda>(nl, b, xs). length xs)") (auto dest!: Index_length)

declare scan_nl.simps [simp del]

text \<open>
  The body of a part and the input that remains after it.  At the very start of the
  body a \<^verbatim>\<open>--boundary\<close> without a line break before it is recognised too: as a delimiter
  it ends the body at once, and otherwise it is part of the body.
\<close>

definition part_body :: "string \<Rightarrow> string \<Rightarrow> string \<Rightarrow> (string \<times> string) option" where
  "part_body nl b xs =
     (if prefix (''--'' @ b) xs then
        (if matchAfterPrefix (drop (length (''--'' @ b)) xs) then Some ([], xs)
         else map_option (\<lambda>(c, r). (''--'' @ b @ c, r))
                (scan_nl nl b (drop (length (''--'' @ b)) xs)))
      else scan_nl nl b xs)"

subsection \<open>The header of a part\<close>

text \<open>
  A header line without its line break and without the spaces and tabs around it, as
  \<^verbatim>\<open>net/textproto\<close> reads it.
\<close>

definition trim :: "string \<Rightarrow> string" where
  "trim xs =
     rev (dropWhile (\<lambda>c. c = CHR '' '' \<or> c = CHR 0x09)
            (rev (dropWhile (\<lambda>c. c = CHR '' '' \<or> c = CHR 0x09) xs)))"

definition header_text :: "string \<Rightarrow> string" where
  "header_text ln =
     (let l = butlast ln
      in trim (if l \<noteq> [] \<and> last l = CHR 0x0D then butlast l else l))"

definition header_line :: "string \<Rightarrow> string \<times> string" where
  "header_line l =
     (takeWhile (\<lambda>c. c \<noteq> CHR '':'') l,
      dropWhile (\<lambda>c. c = CHR '' '' \<or> c = CHR 0x09) (drop 1 (dropWhile (\<lambda>c. c \<noteq> CHR '':'') l)))"

text \<open>
  The header lines up to the empty line, and the input after it.  A line without a colon
  and an input that ends before the empty line are errors.
\<close>

function readMIMEHeader :: "string \<Rightarrow> ((string \<times> string) list \<times> string) option" where
  "readMIMEHeader xs =
     (if \<not> has_line xs then None
      else if header_text (first_line xs) = [] then Some ([], after_line xs)
      else if CHR '':'' \<notin> set (header_text (first_line xs)) then None
      else map_option (\<lambda>(h, r). (header_line (header_text (first_line xs)) # h, r))
             (readMIMEHeader (after_line xs)))"
  by pat_completeness auto
termination
  by (relation "measure length") (auto simp: after_line_shorter)

declare readMIMEHeader.simps [simp del]

definition populateHeaders :: "string \<Rightarrow> ((string \<times> string) list \<times> string) option" where
  "populateHeaders xs =
     (case xs of
        [] \<Rightarrow> readMIMEHeader xs
      | c # cs \<Rightarrow> if c = CHR '' '' \<or> c = CHR 0x09 then None else readMIMEHeader xs)"

subsection \<open>All the parts\<close>

record Part =
  PartHeader :: "(string \<times> string) list"
  content :: string

lemma next_boundary_shorter:
  "next_boundary b nl partsRead expectNewPart xs = PartFollows nl' rest \<Longrightarrow>
   length rest < length xs"
proof (induction b nl partsRead expectNewPart xs rule: next_boundary.induct)
  case (1 b nl partsRead expectNewPart xs)
  from "1.prems" have h: "has_line xs"
    by (subst (asm) next_boundary.simps) (auto split: if_splits)
  note s = after_line_shorter [OF h]
  from "1.prems" h consider
      "rest = after_line xs"
    | "next_boundary b nl partsRead expectNewPart (after_line xs) = PartFollows nl' rest"
      "\<not> isBoundaryDelimiterLine b nl partsRead (first_line xs)"
      "\<not> isFinalBoundary b nl (first_line xs)" "\<not> expectNewPart" "partsRead = 0"
    | "next_boundary b nl partsRead True (after_line xs) = PartFollows nl' rest"
      "\<not> isBoundaryDelimiterLine b nl partsRead (first_line xs)"
      "\<not> isFinalBoundary b nl (first_line xs)" "\<not> expectNewPart" "partsRead \<noteq> 0"
      "first_line xs = nl"
    by (subst (asm) next_boundary.simps) (auto split: if_splits)
  then show ?case
  proof cases
    case 1
    then show ?thesis using s by simp
  next
    case 2
    then have "length rest < length (after_line xs)" using "1.IH"(1) h by blast
    then show ?thesis using s by simp
  next
    case 3
    then have "length rest < length (after_line xs)" using "1.IH"(2) h by blast
    then show ?thesis using s by simp
  qed
qed

lemma readMIMEHeader_shorter:
  "readMIMEHeader xs = Some (h, rest) \<Longrightarrow> length rest < length xs"
proof (induction xs arbitrary: h rule: readMIMEHeader.induct)
  case (1 xs)
  from "1.prems" have l: "has_line xs"
    by (subst (asm) readMIMEHeader.simps) (auto split: if_splits)
  note s = after_line_shorter [OF l]
  from "1.prems" l consider "rest = after_line xs"
    | h' where "readMIMEHeader (after_line xs) = Some (h', rest)"
        "header_text (first_line xs) \<noteq> []" "\<not> CHR '':'' \<notin> set (header_text (first_line xs))"
    by (subst (asm) readMIMEHeader.simps) (auto split: if_splits)
  then show ?case
  proof cases
    case 1
    then show ?thesis using s by simp
  next
    case 2
    then have "length rest < length (after_line xs)" using "1.IH" l by blast
    then show ?thesis using s by simp
  qed
qed

lemma scan_nl_shorter:
  "scan_nl nl b xs = Some (c, rest) \<Longrightarrow> length rest \<le> length xs"
proof (induction nl b xs arbitrary: c rule: scan_nl.induct)
  case (1 nl b xs)
  from "1.prems" obtain pre post where i: "Index (nl @ ''--'' @ b) xs = Some (pre, post)"
    by (subst (asm) scan_nl.simps) (auto split: option.splits)
  note len = Index_length [OF i]
  show ?case
  proof (cases "matchAfterPrefix post")
    case True
    then have "rest = nl @ ''--'' @ b @ post"
      using "1.prems" i by (subst (asm) scan_nl.simps) auto
    then show ?thesis using len by simp
  next
    case False
    then obtain c' where "scan_nl nl b post = Some (c', rest)"
      using "1.prems" i by (subst (asm) scan_nl.simps) auto
    then have "length rest \<le> length post" using "1.IH" [OF i refl False] by blast
    then show ?thesis using len by simp
  qed
qed

lemma part_body_shorter:
  "part_body nl b xs = Some (c, rest) \<Longrightarrow> length rest \<le> length xs"
  by (auto simp: part_body_def split: if_splits dest!: scan_nl_shorter)

function read_parts :: "string \<Rightarrow> string \<Rightarrow> nat \<Rightarrow> string \<Rightarrow> Part list option" where
  "read_parts b nl partsRead xs =
     (case next_boundary b nl partsRead False xs of
        NextPartError \<Rightarrow> None
      | EndOfParts \<Rightarrow> Some []
      | PartFollows nl' rest \<Rightarrow>
          (case populateHeaders rest of
             None \<Rightarrow> None
           | Some (hdr, body) \<Rightarrow>
               (case part_body nl' b body of
                  None \<Rightarrow> None
                | Some (c, after) \<Rightarrow>
                    map_option ((#) \<lparr> PartHeader = hdr, content = c \<rparr>)
                      (read_parts b nl' (Suc partsRead) after))))"
  by pat_completeness auto
termination
proof (relation "measure (\<lambda>(b, nl, partsRead, xs). length xs)", goal_cases)
  case 1
  show ?case by simp
next
  case (2 b nl partsRead xs nl' rest pair hdr body pair' c after)
  have "length rest < length xs" using 2(1) by (rule next_boundary_shorter)
  moreover have "length body < length rest"
    using 2(2,3) by (auto simp: populateHeaders_def split: list.splits if_splits
        dest!: readMIMEHeader_shorter)
  moreover have "length after \<le> length body" using 2(4,5) part_body_shorter by auto
  ultimately show ?case by simp
qed

declare read_parts.simps [simp del]

text \<open>
  All the parts of a body, read with the boundary \<open>b\<close>; the reader refuses an empty
  boundary.
\<close>

definition ReadAll :: "string \<Rightarrow> string \<Rightarrow> Part list option" where
  "ReadAll b body = (if b = [] then None else read_parts b CRLF 0 body)"

subsection \<open>The form name and the file name of a part\<close>

text \<open>
  Both are parameters of the part's \<^verbatim>\<open>Content-Disposition\<close> header.  The header value
  is read as \<^verbatim>\<open>mime.ParseMediaType\<close> reads one whose parameters have lower-case
  names and values that are tokens or double-quoted strings without semicolons and
  escapes: parameters are separated by semicolons, and a value in double quotes loses
  the quotes.  The form name is given for the disposition \<^verbatim>\<open>form-data\<close> only; the file
  name is given for any disposition, cut down to its last path element.
\<close>

definition unquote :: "string \<Rightarrow> string" where
  "unquote v =
     (if 2 \<le> length v \<and> hd v = DQ \<and> last v = DQ then butlast (tl v) else v)"

definition media_param :: "string \<Rightarrow> string \<times> string" where
  "media_param p =
     (let q = dropWhile (\<lambda>c. c = CHR '' '') p
      in (takeWhile (\<lambda>c. c \<noteq> CHR ''='') q,
          unquote (drop 1 (dropWhile (\<lambda>c. c \<noteq> CHR ''='') q))))"

definition parseContentDisposition :: "Part \<Rightarrow> string \<times> (string \<times> string) list" where
  "parseContentDisposition p =
     (case map_of (PartHeader p) ''Content-Disposition'' of
        None \<Rightarrow> ([], [])
      | Some v \<Rightarrow>
          (case split_on CHR '';'' v of
             [] \<Rightarrow> ([], [])
           | d # ps \<Rightarrow> (trim d, map media_param ps)))"

definition Base :: "string \<Rightarrow> string" where
  "Base path =
     (if path = [] then ''.''
      else (let p = rev (dropWhile (\<lambda>c. c = CHR ''/'') (rev path))
            in if p = [] then ''/'' else rev (takeWhile (\<lambda>c. c \<noteq> CHR ''/'') (rev p))))"

definition FormName :: "Part \<Rightarrow> string" where
  "FormName p =
     (if fst (parseContentDisposition p) \<noteq> ''form-data'' then []
      else (case map_of (snd (parseContentDisposition p)) ''name'' of
              None \<Rightarrow> []
            | Some x \<Rightarrow> x))"

definition FileName :: "Part \<Rightarrow> string" where
  "FileName p =
     (case map_of (snd (parseContentDisposition p)) ''filename'' of
        None \<Rightarrow> []
      | Some x \<Rightarrow> if x = [] then [] else Base x)"

text \<open>
  The value of the \<^verbatim>\<open>Content-Disposition\<close> header of the part that \<open>Create\<close>
  writes, after \<^verbatim>\<open>Sprintf\<close> has put the file name in.
\<close>

definition disposition :: string where
  "disposition =
     ''form-data; name='' @ [DQ] @ ''file'' @ [DQ] @ ''; filename='' @ [DQ] @ ''import.csv'' @ [DQ]"

section \<open>A client for the examples\<close>

text \<open>
  A surrounding client whose transport honours the context of the request it is given,
  as \<^verbatim>\<open>net/http\<close> does: a request whose context is done fails with the context's
  error, any other request is answered with \<open>resp\<close>.  Every URL parses, and the random
  source yields thirty zero bytes.
\<close>

definition client :: "response \<Rightarrow> env" where
  "client resp =
     \<lparr> url = (\<lambda>segs. ''https://example.mktorest.com'' @ concat (map (\<lambda>s. ''/'' @ s) segs)),
       doRequest = (\<lambda>rq. case ReqContext rq of
                            Some c \<Rightarrow> Inl (ContextError c)
                          | None \<Rightarrow> Inr resp),
       url_error = (\<lambda>u. None),
       random_bytes = replicate 30 (CHR 0x00),
       filterLeads = ''filter leads'' \<rparr>"

definition json_response :: "int \<Rightarrow> json \<Rightarrow> response" where
  "json_response code doc = \<lparr> StatusCode = code, Body = \<lparr> as_json = Inr doc, as_csv = [] \<rparr> \<rparr>"

definition csv_response :: "int \<Rightarrow> csv_line list \<Rightarrow> response" where
  "csv_response code ls =
     \<lparr> StatusCode = code, Body = \<lparr> as_json = Inl (JSONError ''invalid character''), as_csv = ls \<rparr> \<rparr>"

section \<open>Properties of the record reference resolver\<close>

lemma Sprintf_plain: "CHR ''%'' \<notin> set xs \<Longrightarrow> Sprintf xs [] = xs"
  by (induction xs "[] :: arg list" rule: Sprintf.induct) auto

lemma int_placeholders_skip:
  "CHR ''%'' \<notin> set xs \<Longrightarrow> int_placeholders (xs @ ys) = int_placeholders ys"
proof (induction xs)
  case Nil
  then show ?case by simp
next
  case (Cons x xs)
  then show ?case by (cases "xs @ ys") auto
qed

lemma Leads_status_filled: "Sprintf (status Leads) [I 7] = ''leads/batch/7''"
  by (simp add: Leads_def Itoa_def)

text \<open>
  Claim C8.  \<open>ImportObjectForAPIName\<close> is a total function, so it cannot fail.  For the
  well-known name \<^verbatim>\<open>lead\<close> it returns the fixed lead templates; for any other name it
  returns the three templates of the custom-object import path with the name embedded.
  For every kind of the static table the create template has no integer placeholder and
  the status and failures templates have exactly one; the same holds for every custom
  name that contains no percent sign.
\<close>

theorem ImportObjectForAPIName_templates:
  "ImportObjectForAPIName ''lead'' = Leads
   \<and> (apiName \<noteq> ''lead'' \<longrightarrow>
        ImportObjectForAPIName apiName =
          \<lparr> create = ''customobjects/'' @ apiName @ ''/import'',
            status = ''customobjects/'' @ apiName @ ''/import/%d/status'',
            failures = ''customobjects/'' @ apiName @ ''/import/%d/failures'' \<rparr>)
   \<and> (\<forall>kind \<in> dom importObjects.
        int_placeholders (create (ImportObjectForAPIName kind)) = 0
        \<and> int_placeholders (status (ImportObjectForAPIName kind)) = 1
        \<and> int_placeholders (failures (ImportObjectForAPIName kind)) = 1)
   \<and> (CHR ''%'' \<notin> set apiName \<longrightarrow>
        int_placeholders (create (ImportObjectForAPIName apiName)) = 0
        \<and> int_placeholders (status (ImportObjectForAPIName apiName)) = 1
        \<and> int_placeholders (failures (ImportObjectForAPIName apiName)) = 1)"
proof -
  have lead: "ImportObjectForAPIName ''lead'' = Leads"
    by (simp add: ImportObjectForAPIName_def importObjects_def)
  have other: "ImportObjectForAPIName apiName =
          \<lparr> create = ''customobjects/'' @ apiName @ ''/import'',
            status = ''customobjects/'' @ apiName @ ''/import/%d/status'',
            failures = ''customobjects/'' @ apiName @ ''/import/%d/failures'' \<rparr>"
    if "apiName \<noteq> ''lead''"
    using that by (simp add: ImportObjectForAPIName_def importObjects_def)
  have leads: "int_placeholders (create Leads) = 0 \<and> int_placeholders (status Leads) = 1
      \<and> int_placeholders (failures Leads) = 1"
    by (simp add: Leads_def)
  have known: "\<forall>kind \<in> dom importObjects.
        int_placeholders (create (ImportObjectForAPIName kind)) = 0
        \<and> int_placeholders (status (ImportObjectForAPIName kind)) = 1
        \<and> int_placeholders (failures (ImportObjectForAPIName kind)) = 1"
    using leads lead by (auto simp: importObjects_def split: if_splits)
  have free: "int_placeholders (create (ImportObjectForAPIName apiName)) = 0
        \<and> int_placeholders (status (ImportObjectForAPIName apiName)) = 1
        \<and> int_placeholders (failures (ImportObjectForAPIName apiName)) = 1"
    if "CHR ''%'' \<notin> set apiName"
  proof (cases "apiName = ''lead''")
    case True
    then show ?thesis using lead leads by simp
  next
    case False
    have a: "int_placeholders (''customobjects/'' @ apiName @ rest) = int_placeholders rest"
      for rest
      using int_placeholders_skip [of "''customobjects/'' @ apiName" rest] that by simp
    show ?thesis
      using a [of "''/import''"] a [of "''/import/%d/status''"] a [of "''/import/%d/failures''"]
      by (simp add: other [OF False])
  qed
  show ?thesis using lead other known free by blast
qed

theorem ImportObjectForAPIName_templates_witness:
  "''car_c'' \<noteq> ''lead''
   \<and> CHR ''%'' \<notin> set ''car_c''
   \<and> ''lead'' \<in> dom importObjects
   \<and> ImportObjectForAPIName ''lead'' = Leads
   \<and> ImportObjectForAPIName ''car_c'' =
        \<lparr> create = ''customobjects/car_c/import'',
          status = ''customobjects/car_c/import/%d/status'',
          failures = ''customobjects/car_c/import/%d/failures'' \<rparr>
   \<and> int_placeholders (create (ImportObjectForAPIName ''lead'')) = 0
   \<and> int_placeholders (status (ImportObjectForAPIName ''lead'')) = 1
   \<and> int_placeholders (failures (ImportObjectForAPIName ''lead'')) = 1
   \<and> int_placeholders (create (ImportObjectForAPIName ''car_c'')) = 0
   \<and> int_placeholders (status (ImportObjectForAPIName ''car_c'')) = 1
   \<and> int_placeholders (failures (ImportObjectForAPIName ''car_c'')) = 1"
proof -
  note t = ImportObjectForAPIName_templates [of "''car_c''"]
  have h1: "''car_c'' \<noteq> ''lead''" by simp
  have h2: "CHR ''%'' \<notin> set ''car_c''" by simp
  have h3: "''lead'' \<in> dom importObjects" by (simp add: importObjects_def)
  from t have a: "ImportObjectForAPIName ''lead'' = Leads" by blast
  from t h1 have b: "ImportObjectForAPIName ''car_c'' =
        \<lparr> create = ''customobjects/car_c/import'',
          status = ''customobjects/car_c/import/%d/status'',
          failures = ''customobjects/car_c/import/%d/failures'' \<rparr>" by simp
  from t h3 have c: "int_placeholders (create (ImportObjectForAPIName ''lead'')) = 0
      \<and> int_placeholders (status (ImportObjectForAPIName ''lead'')) = 1
      \<and> int_placeholders (failures (ImportObjectForAPIName ''lead'')) = 1" by blast
  from t h2 have d: "int_placeholders (create (ImportObjectForAPIName ''car_c'')) = 0
      \<and> int_placeholders (status (ImportObjectForAPIName ''car_c'')) = 1
      \<and> int_placeholders (failures (ImportObjectForAPIName ''car_c'')) = 1" by blast
  show ?thesis using h1 h2 h3 a b c d by blast
qed

section \<open>Properties of the bulk job client\<close>

subsection \<open>Requests of the example client\<close>

lemma doRequest_client:
  "doRequest (client resp)
     \<lparr> Method = m, URL = u, Header = h, ReqBody = b, ReqContext = None \<rparr> = Inr resp"
  by (simp add: client_def)

lemma Get_request_client:
  "ImportAPI_Get_request (client resp) ctx Leads 1022 =
     Inr \<lparr> Method = ''GET'',
           URL = ''https://example.mktorest.com/bulk/v1/leads/batch/1022.json'',
           Header = [], ReqBody = None, ReqContext = None \<rparr>"
  by (simp add: ImportAPI_Get_request_def client_def NewRequest_def NewRequestWithContext_def
        Background_def MethodGet_def Leads_def Itoa_def)

lemma Failures_request_client:
  "ImportAPI_Failures_request (client resp) ctx Leads 7 =
     Inr \<lparr> Method = ''GET'',
           URL = ''https://example.mktorest.com/bulk/v1/leads/batch/7/failures.json'',
           Header = [], ReqBody = None, ReqContext = None \<rparr>"
  by (simp add: ImportAPI_Failures_request_def client_def NewRequest_def NewRequestWithContext_def
        Background_def MethodGet_def Leads_def Itoa_def)

lemma Create_request_client:
  "ImportAPI_Create_request (client resp) ctx obj (Reader bytes None) =
     Inr (projr (ImportAPI_Create_request (client resp) ctx obj (Reader bytes None)))"
  by (simp add: ImportAPI_Create_request_def client_def NewRequest_def NewRequestWithContext_def
        Let_def)

lemma doRequest_Create_client:
  "doRequest (client resp)
     (projr (ImportAPI_Create_request (client resp) ctx obj (Reader bytes None))) = Inr resp"
  by (simp add: ImportAPI_Create_request_def client_def NewRequest_def NewRequestWithContext_def
        Let_def Background_def Header_Add_def)

subsection \<open>The derived count of processed records\<close>

lemma Get_response_Processed:
  assumes "ImportAPI_Get_response resp = Inr job"
  shows "Processed job =
           (if 0 < LeadsProcessed job then LeadsProcessed job else ObjectsProcessed job)"
proof -
  from assms obtain result where
    r: "result \<noteq> []" "job = set_Processed (result ! 0)"
    by (auto simp: ImportAPI_Get_response_def split: if_splits sum.splits)
  then show ?thesis by (simp add: set_Processed_def Let_def)
qed

lemma Get_via_response:
  "ImportAPI_Get e ctx obj bid = Inr job \<Longrightarrow> \<exists>resp. ImportAPI_Get_response resp = Inr job"
  by (auto simp: ImportAPI_Get_def split: sum.splits)

text \<open>
  Claim C3, as stated, fails on the code.  The counters are Go \<^verbatim>\<open>int\<close>s, and the
  precedence test is \<^verbatim>\<open>LeadsProcessed > 0\<close>.  A status response whose lead counter is
  \<open>-5\<close> and which has no object counter yields a job whose \<open>Processed\<close> is the object
  counter, \<open>0\<close>: the zero counter is selected while the other counter is nonzero.
\<close>

theorem Get_zero_counter_selected:
  "ImportAPI_Get
     (client (json_response 200
        (JObject [(''success'', JBool True),
                  (''result'', JArray [JObject [(''batchId'', JNumber 1022),
                     (''status'', JString ''Complete''),
                     (''numOfLeadsProcessed'', JNumber (- 5))]])])))
     None Leads 1022 =
     Inr \<lparr> BatchID = 1022, ImportID = [], Status = ''Complete'', LeadsProcessed = - 5,
           Failures = 0, Warnings = 0, Message = [], ObjectsProcessed = 0, ObjectName = [],
           Processed = 0 \<rparr>"
  by code_simp

text \<open>
  Claim C3, amended.  For every \<open>Get\<close> call that returns a job, \<open>Processed\<close> equals
  the lead counter whenever the lead counter is positive, and the object counter
  otherwise; a zero counter is never selected while either counter is positive.
\<close>

theorem Get_Processed_precedence:
  assumes "ImportAPI_Get e ctx obj bid = Inr job"
  shows "Processed job =
           (if 0 < LeadsProcessed job then LeadsProcessed job else ObjectsProcessed job)
         \<and> \<not> (Processed job = 0 \<and> (0 < LeadsProcessed job \<or> 0 < ObjectsProcessed job))"
proof -
  from assms obtain resp where "ImportAPI_Get_response resp = Inr job"
    using Get_via_response by blast
  then have p: "Processed job =
      (if 0 < LeadsProcessed job then LeadsProcessed job else ObjectsProcessed job)"
    by (rule Get_response_Processed)
  then show ?thesis by (auto split: if_splits)
qed

text \<open>
  A lead import reports seven leads and no objects; a custom-object import reports four
  objects and no leads.  Each job's \<open>Processed\<close> is its nonzero counter.
\<close>

theorem Get_Processed_precedence_witness:
  "ImportAPI_Get
     (client (json_response 200
        (JObject [(''success'', JBool True),
                  (''result'', JArray [JObject [(''batchId'', JNumber 1022),
                     (''status'', JString ''Complete''), (''numOfLeadsProcessed'', JNumber 7)]])])))
     None Leads 1022 =
     Inr \<lparr> BatchID = 1022, ImportID = [], Status = ''Complete'', LeadsProcessed = 7,
           Failures = 0, Warnings = 0, Message = [], ObjectsProcessed = 0, ObjectName = [],
           Processed = 7 \<rparr>
   \<and> ImportAPI_Get
     (client (json_response 200
        (JObject [(''success'', JBool True),
                  (''result'', JArray [JObject [(''batchId'', JNumber 31),
                     (''status'', JString ''Complete''), (''numOfObjectsProcessed'', JNumber 4),
                     (''objectApiName'', JString ''car_c'')]])])))
     None (ImportObjectForAPIName ''car_c'') 31 =
     Inr \<lparr> BatchID = 31, ImportID = [], Status = ''Complete'', LeadsProcessed = 0,
           Failures = 0, Warnings = 0, Message = [], ObjectsProcessed = 4, ObjectName = ''car_c'',
           Processed = 4 \<rparr>"
proof -
  let ?e1 = "client (json_response 200
        (JObject [(''success'', JBool True),
                  (''result'', JArray [JObject [(''batchId'', JNumber 1022),
                     (''status'', JString ''Complete''), (''numOfLeadsProcessed'', JNumber 7)]])]))"
  let ?e2 = "client (json_response 200
        (JObject [(''success'', JBool True),
                  (''result'', JArray [JObject [(''batchId'', JNumber 31),
                     (''status'', JString ''Complete''), (''numOfObjectsProcessed'', JNumber 4),
                     (''objectApiName'', JString ''car_c'')]])]))"
  let ?j1 = "projr (ImportAPI_Get ?e1 None Leads 1022)"
  let ?j2 = "projr (ImportAPI_Get ?e2 None (ImportObjectForAPIName ''car_c'') 31)"
  have h1: "ImportAPI_Get ?e1 None Leads 1022 = Inr ?j1" by code_simp
  have h2: "ImportAPI_Get ?e2 None (ImportObjectForAPIName ''car_c'') 31 = Inr ?j2" by code_simp
  have f1: "BatchID ?j1 = 1022 \<and> ImportID ?j1 = [] \<and> Status ?j1 = ''Complete''
      \<and> LeadsProcessed ?j1 = 7 \<and> Failures ?j1 = 0 \<and> Warnings ?j1 = 0 \<and> Message ?j1 = []
      \<and> ObjectsProcessed ?j1 = 0 \<and> ObjectName ?j1 = []" by code_simp
  have f2: "BatchID ?j2 = 31 \<and> ImportID ?j2 = [] \<and> Status ?j2 = ''Complete''
      \<and> LeadsProcessed ?j2 = 0 \<and> Failures ?j2 = 0 \<and> Warnings ?j2 = 0 \<and> Message ?j2 = []
      \<and> ObjectsProcessed ?j2 = 4 \<and> ObjectName ?j2 = ''car_c''" by code_simp
  have p1: "Processed ?j1 = 7" using Get_Processed_precedence [OF h1] f1 by simp
  have p2: "Processed ?j2 = 4" using Get_Processed_precedence [OF h2] f2 by simp
  have "?j1 = \<lparr> BatchID = 1022, ImportID = [], Status = ''Complete'', LeadsProcessed = 7,
           Failures = 0, Warnings = 0, Message = [], ObjectsProcessed = 0, ObjectName = [],
           Processed = 7 \<rparr>" using f1 p1 by (intro BatchResult.equality) simp_all
  moreover have "?j2 = \<lparr> BatchID = 31, ImportID = [], Status = ''Complete'', LeadsProcessed = 0,
           Failures = 0, Warnings = 0, Message = [], ObjectsProcessed = 4, ObjectName = ''car_c'',
           Processed = 4 \<rparr>" using f2 p2 by (intro BatchResult.equality) simp_all
  ultimately show ?thesis using h1 h2 by simp
qed

subsection \<open>Application-level errors in the envelope\<close>

text \<open>
  Claim C6.  When the response to \<open>Create\<close> or to \<open>Get\<close> has status 200 and its
  decoded envelope carries at least one error entry, the call fails with the API error
  built from the status and all the entries; it returns no result array.
\<close>

theorem envelope_errors_fail:
  assumes "StatusCode resp = 200"
    and "Decode_Response (Body resp) = Inr response"
    and "Errors response \<noteq> []"
  shows "(ImportAPI_Create_request e ctx obj stream = Inr rq \<and> doRequest e rq = Inr resp \<longrightarrow>
            ImportAPI_Create e ctx obj stream = Inl (ErrorForReasons 200 (Errors response)))
         \<and> (ImportAPI_Get_request e ctx obj bid = Inr rq' \<and> doRequest e rq' = Inr resp \<longrightarrow>
            ImportAPI_Get e ctx obj bid = Inl (ErrorForReasons 200 (Errors response)))"
  using assms
  by (simp add: ImportAPI_Create_def ImportAPI_Create_response_def ImportAPI_Get_def
        ImportAPI_Get_response_def StatusOK_def)

text \<open>
  An envelope with status 200 that reports the reason \<^verbatim>\<open>1003\<close>: both calls fail with
  the API error that carries it.
\<close>

theorem envelope_errors_fail_witness:
  "StatusCode (json_response 200 (JObject [(''success'', JBool False),
       (''errors'', JArray [JObject [(''code'', JString ''1003''),
                                      (''message'', JString ''Empty file'')]])])) = 200
   \<and> ImportAPI_Create
        (client (json_response 200 (JObject [(''success'', JBool False),
           (''errors'', JArray [JObject [(''code'', JString ''1003''),
                                          (''message'', JString ''Empty file'')]])])))
        None Leads (Reader ''email'' None) =
       Inl (APIError 200 [JObject [(''code'', JString ''1003''),
                                   (''message'', JString ''Empty file'')]])
   \<and> ImportAPI_Get
        (client (json_response 200 (JObject [(''success'', JBool False),
           (''errors'', JArray [JObject [(''code'', JString ''1003''),
                                          (''message'', JString ''Empty file'')]])])))
        None Leads 1022 =
       Inl (APIError 200 [JObject [(''code'', JString ''1003''),
                                   (''message'', JString ''Empty file'')]])"
proof -
  let ?reasons = "[JObject [(''code'', JString ''1003''), (''message'', JString ''Empty file'')]]"
  let ?resp = "json_response 200 (JObject [(''success'', JBool False), (''errors'', JArray ?reasons)])"
  let ?response = "\<lparr> Errors = ?reasons, Result = None, NextPageToken = [] \<rparr>"
  let ?rq = "projr (ImportAPI_Create_request (client ?resp) None Leads (Reader ''email'' None))"
  let ?rq' = "projr (ImportAPI_Get_request (client ?resp) None Leads 1022)"
  have h1: "StatusCode ?resp = 200" by (simp add: json_response_def)
  have h2: "Decode_Response (Body ?resp) = Inr ?response" by code_simp
  have h3: "Errors ?response \<noteq> []" by simp
  have c1: "ImportAPI_Create_request (client ?resp) None Leads (Reader ''email'' None) = Inr ?rq"
    by (rule Create_request_client)
  have c2: "doRequest (client ?resp) ?rq = Inr ?resp"
    by (rule doRequest_Create_client)
  have g1: "ImportAPI_Get_request (client ?resp) None Leads 1022 = Inr ?rq'"
    by (simp add: Get_request_client)
  have g2: "doRequest (client ?resp) ?rq' = Inr ?resp"
    by (simp add: Get_request_client doRequest_client)
  note t = envelope_errors_fail [OF h1 h2 h3,
      where e = "client ?resp" and ctx = None and obj = Leads and stream = "Reader ''email'' None"
        and rq = ?rq and bid = 1022 and rq' = ?rq']
  from t c1 c2 have a: "ImportAPI_Create (client ?resp) None Leads (Reader ''email'' None) =
       Inl (APIError 200 ?reasons)" by (simp add: ErrorForReasons_def)
  from t g1 g2 have b: "ImportAPI_Get (client ?resp) None Leads 1022 = Inl (APIError 200 ?reasons)"
    by (simp add: ErrorForReasons_def)
  show ?thesis using h1 a b by blast
qed

subsection \<open>The context argument\<close>

lemma requests_carry_background_context:
  "ImportAPI_Get_request e ctx obj bid = Inr rq \<Longrightarrow> ReqContext rq = Background"
  "ImportAPI_Failures_request e ctx obj bid = Inr rq \<Longrightarrow> ReqContext rq = Background"
  "ImportAPI_Create_request e ctx obj stream = Inr rq \<Longrightarrow> ReqContext rq = Background"
proof -
  show "ImportAPI_Get_request e ctx obj bid = Inr rq \<Longrightarrow> ReqContext rq = Background"
    by (auto simp: ImportAPI_Get_request_def NewRequest_def NewRequestWithContext_def
          split: option.splits)
  show "ImportAPI_Failures_request e ctx obj bid = Inr rq \<Longrightarrow> ReqContext rq = Background"
    by (auto simp: ImportAPI_Failures_request_def NewRequest_def NewRequestWithContext_def
          split: option.splits)
  show "ImportAPI_Create_request e ctx obj stream = Inr rq \<Longrightarrow> ReqContext rq = Background"
    by (cases stream)
       (auto simp: ImportAPI_Create_request_def NewRequest_def NewRequestWithContext_def
          Header_Add_def Let_def split: option.splits sum.splits)
qed

text \<open>
  Claim C2 does not hold of the code.  \<open>Create\<close>, \<open>Get\<close> and \<open>Failures\<close> take a
  context and never use it: each builds its request with \<^verbatim>\<open>http.NewRequest\<close>, which
  attaches the background context.  With a transport that fails every request whose
  context is done, a call made with a context that is already canceled still goes
  through and returns its result, and the request it issues carries the background
  context.
\<close>

theorem canceled_context_ignored:
  "ImportAPI_Get
     (client (json_response 200
        (JObject [(''success'', JBool True),
                  (''result'', JArray [JObject [(''batchId'', JNumber 1022),
                     (''status'', JString ''Importing''), (''numOfLeadsProcessed'', JNumber 7)]])])))
     (Some Canceled) Leads 1022 =
     Inr \<lparr> BatchID = 1022, ImportID = [], Status = ''Importing'', LeadsProcessed = 7,
           Failures = 0, Warnings = 0, Message = [], ObjectsProcessed = 0, ObjectName = [],
           Processed = 7 \<rparr>
   \<and> ImportAPI_Create
     (client (json_response 200
        (JObject [(''success'', JBool True),
                  (''result'', JArray [JObject [(''batchId'', JNumber 1022),
                     (''status'', JString ''Queued'')]])])))
     (Some Canceled) Leads (Reader ''email'' None) =
     Inr [\<lparr> BatchID = 1022, ImportID = [], Status = ''Queued'', LeadsProcessed = 0,
            Failures = 0, Warnings = 0, Message = [], ObjectsProcessed = 0, ObjectName = [],
            Processed = 0 \<rparr>]
   \<and> map_sum id (map Reason)
       (ImportAPI_Failures (client (csv_response 200
          [Row [''email'', ''reason''], Row [''a@x.com'', ''invalid email'']]))
        (Some Canceled) Leads 1022) = Inr [''invalid email'']
   \<and> map_sum id ReqContext (ImportAPI_Get_request (client (json_response 200 JNull))
         (Some Canceled) Leads 1022) = Inr Background"
  by code_simp

section \<open>Properties of the failure report decoder\<close>

subsection \<open>Status codes\<close>

text \<open>
  Claim C5.  A 404 response to \<open>Failures\<close> yields the empty list and no error.  Any
  other status that is not 200 yields what \<open>handleError\<close> builds from the label
  \<^verbatim>\<open>get import failures\<close> and the response, which is the HTTP-status error that carries
  the label and the numeric status, not an empty success.
\<close>

theorem Failures_status_dispatch:
  assumes "ImportAPI_Failures_request e ctx obj bid = Inr rq"
    and "doRequest e rq = Inr resp"
  shows "(StatusCode resp = 404 \<longrightarrow> ImportAPI_Failures e ctx obj bid = Inr [])
         \<and> (StatusCode resp \<noteq> 404 \<and> StatusCode resp \<noteq> 200 \<longrightarrow>
              ImportAPI_Failures e ctx obj bid = Inl (handleError ''get import failures'' resp)
              \<and> handleError ''get import failures'' resp =
                    HTTPStatusError ''get import failures'' (StatusCode resp))"
  using assms
  by (simp add: ImportAPI_Failures_def ImportAPI_Failures_response_def StatusNotFound_def
        StatusOK_def handleError_def getImportFailures_def)

text \<open>A 404 and a 500 response to the failures request for batch 7 of the lead import.\<close>

theorem Failures_status_dispatch_witness:
  "StatusCode (csv_response 404 []) = 404
   \<and> ImportAPI_Failures (client (csv_response 404 [])) None Leads 7 = Inr []
   \<and> StatusCode (csv_response 500 []) = 500
   \<and> ImportAPI_Failures (client (csv_response 500 [])) None Leads 7 =
       Inl (HTTPStatusError ''get import failures'' 500)"
proof -
  have s4: "StatusCode (csv_response 404 []) = 404" by (simp add: csv_response_def)
  have s5: "StatusCode (csv_response 500 []) = 500" by (simp add: csv_response_def)
  have a: "ImportAPI_Failures (client (csv_response 404 [])) None Leads 7 = Inr []"
    using Failures_status_dispatch [OF Failures_request_client doRequest_client,
        of "csv_response 404 []" None] s4
    by simp
  have b: "ImportAPI_Failures (client (csv_response 500 [])) None Leads 7 =
       Inl (HTTPStatusError ''get import failures'' 500)"
    using Failures_status_dispatch [OF Failures_request_client doRequest_client,
        of "csv_response 500 []" None] s5
    by (simp add: handleError_def)
  show ?thesis using s4 s5 a b by blast
qed

subsection \<open>The header row\<close>

text \<open>
  Claim C10.  On a 200 response, when the first read of the CSV reader fails, the whole
  call fails with that error and returns no list: on an empty body the error is
  \<^verbatim>\<open>io.EOF\<close>, and on a first line that does not lex it is the error of that line.
\<close>

theorem Failures_header_error:
  assumes "ImportAPI_Failures_request e ctx obj bid = Inr rq"
    and "doRequest e rq = Inr resp"
    and "StatusCode resp = 200"
  shows "(as_csv (Body resp) = [] \<longrightarrow> ImportAPI_Failures e ctx obj bid = Inl EOF)
         \<and> (as_csv (Body resp) = Bad err # rest \<longrightarrow>
              ImportAPI_Failures e ctx obj bid = Inl err)"
  using assms
  by (simp add: ImportAPI_Failures_def ImportAPI_Failures_response_def StatusNotFound_def
        StatusOK_def NewReader_def Read_def)

text \<open>
  An empty body, and a body whose first line has a quoting error followed by a record
  that would lex.
\<close>

theorem Failures_header_error_witness:
  "as_csv (Body (csv_response 200 [])) = []
   \<and> ImportAPI_Failures (client (csv_response 200 [])) None Leads 7 = Inl EOF
   \<and> ImportAPI_Failures
        (client (csv_response 200 [Bad (CSVParseError ''bare quote in non-quoted field''),
                                   Row [''a@x.com'', ''invalid email'']])) None Leads 7 =
       Inl (CSVParseError ''bare quote in non-quoted field'')"
proof -
  let ?bad = "CSVParseError ''bare quote in non-quoted field''"
  let ?rest = "[Row [''a@x.com'', ''invalid email'']]"
  have s: "StatusCode (csv_response 200 ls) = 200" for ls
    by (simp add: csv_response_def)
  have c: "as_csv (Body (csv_response 200 ls)) = ls" for ls
    by (simp add: csv_response_def)
  have a: "ImportAPI_Failures (client (csv_response 200 [])) None Leads 7 = Inl EOF"
    using Failures_header_error [OF Failures_request_client doRequest_client s,
        of "[]" None] c
    by simp
  have b: "ImportAPI_Failures (client (csv_response 200 (Bad ?bad # ?rest))) None Leads 7 =
       Inl ?bad"
    using Failures_header_error [OF Failures_request_client doRequest_client s,
        where err = ?bad and rest = ?rest] c
    by simp
  show ?thesis using a b c by simp
qed

subsection \<open>The scan of data rows\<close>

lemma step_map:
  "m(k \<mapsto> v) ++ map_of (rev xs) = m ++ map_of (rev ((k, v) # xs))"
  by (simp add: map_add_upd_left)

lemma zip_butlast_same:
  "length row = length header \<Longrightarrow> zip (butlast header) row = zip (butlast header) (butlast row)"
proof (induction header arbitrary: row)
  case Nil
  then show ?case by simp
next
  case (Cons h header)
  then obtain r row' where r: "row = r # row'" by (cases row) auto
  show ?case
  proof (cases header)
    case Nil
    then show ?thesis using Cons.prems r by simp
  next
    case (Cons h' hs)
    then have "row' \<noteq> []" using Cons.prems r by auto
    then show ?thesis using Cons.IH [of row'] Cons.prems r Cons by simp
  qed
qed

text \<open>
  The inner loop, started at column \<open>i\<close> with the map \<open>m\<close>, adds the pairs of the
  header names and cells from column \<open>i\<close> up to the last but one.
\<close>

lemma Fields_loop_map_of:
  "i \<le> length header - 1 \<Longrightarrow> length header - 1 \<le> length row \<Longrightarrow>
   Fields_loop header row i m =
     m ++ map_of (rev (zip (drop i (butlast header)) (drop i row)))"
proof (induction header row i m rule: Fields_loop.induct)
  case (1 header row i m)
  show ?case
  proof (cases "int i < int (length header) - 1")
    case True
    then have i: "i < length header - 1" "i < length row" "i < length (butlast header)"
      using "1.prems" by auto
    have h: "drop i (butlast header) = header ! i # drop (Suc i) (butlast header)"
      using i by (metis Cons_nth_drop_Suc nth_butlast)
    have r: "drop i row = row ! i # drop (Suc i) row"
      using i by (simp add: Cons_nth_drop_Suc)
    have "Fields_loop header row i m =
            Fields_loop header row (Suc i) (m(header ! i \<mapsto> row ! i))"
      using True by (subst Fields_loop.simps) simp
    also have "\<dots> = m(header ! i \<mapsto> row ! i)
        ++ map_of (rev (zip (drop (Suc i) (butlast header)) (drop (Suc i) row)))"
      using i "1.prems" by (intro "1.IH" [OF True]) auto
    also have "\<dots> = m ++ map_of (rev ((header ! i, row ! i)
                 # zip (drop (Suc i) (butlast header)) (drop (Suc i) row)))"
      by (rule step_map)
    also have "\<dots> = m ++ map_of (rev (zip (drop i (butlast header)) (drop i row)))"
      by (simp only: h r zip_Cons_Cons)
    finally show ?thesis .
  next
    case False
    then have e: "i = length header - 1" using "1.prems" by auto
    have "Fields_loop header row i m = m"
      using False by (subst Fields_loop.simps) simp
    moreover have "drop i (butlast header) = []" using e by simp
    ultimately show ?thesis by simp
  qed
qed

lemma loop_failure:
  assumes "header \<noteq> []" "length row = length header"
  shows "\<lparr> Reason = row ! (length header - 1),
           Fields = Fields_loop header row 0 Map.empty \<rparr> = row_failure header row"
proof -
  have "row \<noteq> []" using assms by auto
  then have l: "row ! (length header - 1) = last row"
    using assms by (simp add: last_conv_nth)
  have f: "Fields_loop header row 0 Map.empty = map_of (rev (zip (butlast header) row))"
    using Fields_loop_map_of [of 0 header row Map.empty] assms by simp
  show ?thesis
    using l f zip_butlast_same [OF assms(2)] by (simp add: row_failure_def)
qed

lemma Failures_loop_done: "Failures_loop header rd row (Some err) fs = Inr fs"
  by (subst Failures_loop.simps) simp

lemma Failures_loop_step:
  assumes "header \<noteq> []" "length row = length header"
  shows "Failures_loop header rd row None fs =
           Failures_loop header (snd (Read rd)) (fst (fst (Read rd))) (snd (fst (Read rd)))
             (fs @ [row_failure header row])"
  using assms loop_failure [OF assms]
  by (subst Failures_loop.simps) (simp add: Let_def)

lemma Read_stops:
  assumes "0 < n" "FieldsPerRecord rd = int n" "input rd = tail" "stops n tail"
  shows "\<exists>err. snd (fst (Read rd)) = Some err"
  using assms
  by (auto simp: Read_def stops_def split: list.splits csv_line.splits)

lemma Read_row:
  assumes "0 < length r" "FieldsPerRecord rd = int (length r)" "input rd = Row r # rest"
  shows "Read rd = ((r, None), rd\<lparr> input := rest \<rparr>)"
  using assms by (simp add: Read_def)

lemma Failures_loop_rows:
  assumes "header \<noteq> []" "stops (length header) tail"
  shows "FieldsPerRecord rd = int (length header) \<Longrightarrow> input rd = map Row rows @ tail \<Longrightarrow>
         \<forall>r \<in> set rows. length r = length header \<Longrightarrow> length row = length header \<Longrightarrow>
         Failures_loop header rd row None fs = Inr (fs @ map (row_failure header) (row # rows))"
proof (induction rows arbitrary: rd row fs)
  case Nil
  have "0 < length header" using assms(1) by simp
  then obtain err where "snd (fst (Read rd)) = Some err"
    using Read_stops [of "length header" rd tail] Nil.prems assms(2) by auto
  then show ?case
    using Failures_loop_step [OF assms(1) Nil.prems(4), of rd fs]
    by (simp add: Failures_loop_done)
next
  case (Cons r rows)
  have len: "length r = length header" using Cons.prems(3) by simp
  have "0 < length r" using len assms(1) by simp
  then have rd: "Read rd = ((r, None), rd\<lparr> input := map Row rows @ tail \<rparr>)"
    using Read_row [of r rd "map Row rows @ tail"] Cons.prems len by simp
  have "Failures_loop header rd row None fs =
          Failures_loop header (rd\<lparr> input := map Row rows @ tail \<rparr>) r None
            (fs @ [row_failure header row])"
    using Failures_loop_step [OF assms(1) Cons.prems(4), of rd fs] rd by simp
  also have "\<dots> = Inr ((fs @ [row_failure header row]) @ map (row_failure header) (r # rows))"
    using Cons.prems len by (intro Cons.IH) auto
  finally show ?case by simp
qed

lemma Failures_response_rows:
  assumes "StatusCode resp = 200"
    and "as_csv (Body resp) = Row header # map Row rows @ tail"
    and "header \<noteq> []"
    and "\<forall>r \<in> set rows. length r = length header"
    and "stops (length header) tail"
  shows "ImportAPI_Failures_response resp = Inr (map (row_failure header) rows)"
proof -
  let ?rd0 = "NewReader (Body resp)"
  let ?rd1 = "\<lparr> FieldsPerRecord = int (length header), input = map Row rows @ tail \<rparr>"
  have r0: "Read ?rd0 = ((header, None), ?rd1)"
    using assms(2) by (simp add: Read_def NewReader_def)
  have pos: "0 < length header" using assms(3) by simp
  have body: "ImportAPI_Failures_response resp =
      Failures_loop header (snd (Read ?rd1)) (fst (fst (Read ?rd1))) (snd (fst (Read ?rd1))) []"
    using assms(1) r0
    by (simp add: ImportAPI_Failures_response_def StatusNotFound_def StatusOK_def Let_def)
  show ?thesis
  proof (cases rows)
    case Nil
    then obtain err where "snd (fst (Read ?rd1)) = Some err"
      using Read_stops [OF pos, of ?rd1 tail] assms(5) by auto
    then show ?thesis using body Nil by (simp add: Failures_loop_done)
  next
    case (Cons r rows')
    have len: "length r = length header" using assms(4) Cons by simp
    then have "0 < length r" using pos by simp
    then have r1: "Read ?rd1 = ((r, None), ?rd1\<lparr> input := map Row rows' @ tail \<rparr>)"
      using Read_row [of r ?rd1 "map Row rows' @ tail"] Cons len by simp
    have "Failures_loop header (?rd1\<lparr> input := map Row rows' @ tail \<rparr>) r None [] =
            Inr ([] @ map (row_failure header) (r # rows'))"
      using assms(4) Cons len
      by (intro Failures_loop_rows [OF assms(3) assms(5)]) auto
    then show ?thesis using body r1 Cons by simp
  qed
qed

text \<open>
  Claim C7.  When the 200 body is a header row followed by data rows of the header's
  width, \<open>Failures\<close> returns one failure per data row, in order: the reason is the row's
  final cell, and the field map holds every preceding cell under the header name of its
  column; the header's last name is left out.
\<close>

theorem Failures_rows_decoded:
  assumes "ImportAPI_Failures_request e ctx obj bid = Inr rq"
    and "doRequest e rq = Inr resp"
    and "StatusCode resp = 200"
    and "as_csv (Body resp) = Row header # map Row rows"
    and "header \<noteq> []"
    and "\<forall>r \<in> set rows. length r = length header"
  shows "ImportAPI_Failures e ctx obj bid = Inr (map (row_failure header) rows)"
proof -
  have "ImportAPI_Failures_response resp = Inr (map (row_failure header) rows)"
    using assms(3-6) by (intro Failures_response_rows [where tail = "[]"]) (auto simp: stops_def)
  then show ?thesis using assms(1,2) by (simp add: ImportAPI_Failures_def)
qed

text \<open>
  The example of the spec: the header \<^verbatim>\<open>email, first_name, reason\<close> and one data row
  give exactly one failure.
\<close>

theorem Failures_rows_decoded_witness:
  "StatusCode (csv_response 200 [Row [''email'', ''first_name'', ''reason''],
                                  Row [''a@x.com'', ''Ann'', ''invalid email'']]) = 200
   \<and> ImportAPI_Failures
        (client (csv_response 200 [Row [''email'', ''first_name'', ''reason''],
                                   Row [''a@x.com'', ''Ann'', ''invalid email'']]))
        None Leads 7 =
       Inr [\<lparr> Reason = ''invalid email'',
              Fields = [''email'' \<mapsto> ''a@x.com'', ''first_name'' \<mapsto> ''Ann''] \<rparr>]"
proof -
  let ?header = "[''email'', ''first_name'', ''reason'']"
  let ?rows = "[[''a@x.com'', ''Ann'', ''invalid email'']]"
  let ?resp = "csv_response 200 (Row ?header # map Row ?rows)"
  have h3: "StatusCode ?resp = 200" by (simp add: csv_response_def)
  have h4: "as_csv (Body ?resp) = Row ?header # map Row ?rows" by (simp add: csv_response_def)
  have h5: "?header \<noteq> []" by simp
  have h6: "\<forall>r \<in> set ?rows. length r = length ?header" by simp
  have "ImportAPI_Failures (client ?resp) None Leads 7 = Inr (map (row_failure ?header) ?rows)"
    by (rule Failures_rows_decoded [OF Failures_request_client doRequest_client h3 h4 h5 h6])
  then show ?thesis using h3 by (simp add: row_failure_def)
qed

text \<open>
  Claim C4.  When the 200 body is a header row, then \<open>k\<close> data rows of the header's
  width, then a line that fails to lex (a quoting error, a read error in mid-stream) or
  a record with another number of fields, \<open>Failures\<close> returns the \<open>k\<close> failures decoded
  so far and no error, whatever follows the offending line.
\<close>

theorem Failures_partial_result:
  assumes "ImportAPI_Failures_request e ctx obj bid = Inr rq"
    and "doRequest e rq = Inr resp"
    and "StatusCode resp = 200"
    and "header \<noteq> []"
    and "\<forall>r \<in> set rows. length r = length header"
  shows "(as_csv (Body resp) = Row header # map Row rows @ Bad err # rest \<longrightarrow>
            ImportAPI_Failures e ctx obj bid = Inr (map (row_failure header) rows))
         \<and> (length short \<noteq> length header
              \<and> as_csv (Body resp) = Row header # map Row rows @ Row short # rest \<longrightarrow>
            ImportAPI_Failures e ctx obj bid = Inr (map (row_failure header) rows))"
proof -
  have "ImportAPI_Failures_response resp = Inr (map (row_failure header) rows)"
    if "as_csv (Body resp) = Row header # map Row rows @ tail" "stops (length header) tail"
    for tail
    using assms(3-5) that by (intro Failures_response_rows [where tail = tail]) auto
  then have "ImportAPI_Failures e ctx obj bid = Inr (map (row_failure header) rows)"
    if "as_csv (Body resp) = Row header # map Row rows @ tail" "stops (length header) tail"
    for tail
    using assms(1,2) that by (simp add: ImportAPI_Failures_def)
  then show ?thesis by (auto simp: stops_def)
qed

text \<open>
  One good row, then a row of two cells and a further good row that is never read; and
  one good row, then a read error.  Both calls return the one failure and no error.
\<close>

theorem Failures_partial_result_witness:
  "length [''b@x.com'', ''Bob''] \<noteq> length [''email'', ''first_name'', ''reason'']
   \<and> ImportAPI_Failures
     (client (csv_response 200 [Row [''email'', ''first_name'', ''reason''],
                                Row [''a@x.com'', ''Ann'', ''invalid email''],
                                Row [''b@x.com'', ''Bob''],
                                Row [''c@x.com'', ''Cy'', ''duplicate'']]))
     None Leads 7 =
     Inr [\<lparr> Reason = ''invalid email'',
            Fields = [''email'' \<mapsto> ''a@x.com'', ''first_name'' \<mapsto> ''Ann''] \<rparr>]
   \<and> ImportAPI_Failures
     (client (csv_response 200 [Row [''email'', ''first_name'', ''reason''],
                                Row [''a@x.com'', ''Ann'', ''invalid email''],
                                Bad (ReadError ''unexpected EOF'')]))
     None Leads 7 =
     Inr [\<lparr> Reason = ''invalid email'',
            Fields = [''email'' \<mapsto> ''a@x.com'', ''first_name'' \<mapsto> ''Ann''] \<rparr>]"
proof -
  let ?header = "[''email'', ''first_name'', ''reason'']"
  let ?rows = "[[''a@x.com'', ''Ann'', ''invalid email'']]"
  let ?short = "[''b@x.com'', ''Bob'']"
  let ?rest = "[Row [''c@x.com'', ''Cy'', ''duplicate'']]"
  let ?r1 = "csv_response 200 (Row ?header # map Row ?rows @ Row ?short # ?rest)"
  let ?r2 = "csv_response 200 (Row ?header # map Row ?rows @ Bad (ReadError ''unexpected EOF'') # [])"
  have s: "StatusCode (csv_response 200 ls) = 200" for ls by (simp add: csv_response_def)
  have h4: "?header \<noteq> []" by simp
  have h5: "\<forall>r \<in> set ?rows. length r = length ?header" by simp
  have l: "length ?short \<noteq> length ?header" by simp
  have c1: "as_csv (Body ?r1) = Row ?header # map Row ?rows @ Row ?short # ?rest"
    by (simp add: csv_response_def)
  have c2: "as_csv (Body ?r2) = Row ?header # map Row ?rows @ Bad (ReadError ''unexpected EOF'') # []"
    by (simp add: csv_response_def)
  have a: "ImportAPI_Failures (client ?r1) None Leads 7 = Inr (map (row_failure ?header) ?rows)"
    using Failures_partial_result [OF Failures_request_client doRequest_client s h4 h5,
        where short = ?short and rest = ?rest] l c1 by blast
  have b: "ImportAPI_Failures (client ?r2) None Leads 7 = Inr (map (row_failure ?header) ?rows)"
    using Failures_partial_result [OF Failures_request_client doRequest_client s h4 h5,
        where err = "ReadError ''unexpected EOF''" and rest = "[]"] c2 by blast
  show ?thesis using a b by (simp add: row_failure_def)
qed

section \<open>Properties of the multipart upload encoder\<close>

subsection \<open>Finding a delimiter\<close>

lemma no_early_prefix:
  assumes "d \<noteq> []" "hd d \<notin> set (tl d)" "\<not> sublist d (p # pre)"
  shows "\<not> prefix d ((p # pre) @ d @ rest)"
proof
  assume "prefix d ((p # pre) @ d @ rest)"
  then have "prefix d (p # pre) \<or> (\<exists>us. d = (p # pre) @ us \<and> prefix us (d @ rest))"
    by (simp only: prefix_append)
  then consider "prefix d (p # pre)" | us where "d = (p # pre) @ us" "prefix us (d @ rest)"
    by blast
  then show False
  proof cases
    case 1
    then show ?thesis using assms(3) by (simp add: prefix_imp_sublist)
  next
    case 2
    show ?thesis
    proof (cases us)
      case Nil
      then show ?thesis using 2 assms(3) by simp
    next
      case (Cons u us')
      from assms(1) obtain x d' where d: "d = x # d'" by (cases d) auto
      have "u = x" using 2(2) Cons d by simp
      moreover have "u \<in> set (tl d)" using 2(1) Cons by simp
      ultimately show ?thesis using assms(2) d by simp
    qed
  qed
qed

lemma Index_unique:
  assumes "d \<noteq> []" "hd d \<notin> set (tl d)"
  shows "\<not> sublist d pre \<Longrightarrow> Index d (pre @ d @ rest) = Some (pre, rest)"
proof (induction pre)
  case Nil
  from assms(1) obtain x d' where d: "d = x # d'" by (cases d) auto
  show ?case by (simp add: d)
next
  case (Cons p pre)
  have "\<not> prefix d ((p # pre) @ d @ rest)"
    using no_early_prefix [OF assms(1,2) Cons.prems] .
  moreover have "\<not> sublist d pre"
    using Cons.prems by (meson sublist_Cons_right)
  ultimately show ?case using Cons.IH by simp
qed

text \<open>
  A text that does not begin with \<open>d\<close> does not begin with it either when a character
  foreign to \<open>d\<close> is put after the text.
\<close>

lemma no_prefix_before_foreign:
  assumes "\<not> prefix d pre" "c \<notin> set d"
  shows "\<not> prefix d (pre @ c # rest)"
proof
  assume "prefix d (pre @ c # rest)"
  then have "prefix d pre \<or> (\<exists>us. d = pre @ us \<and> prefix us (c # rest))"
    by (simp only: prefix_append)
  then obtain us where us: "d = pre @ us" "prefix us (c # rest)"
    using assms(1) by blast
  show False
  proof (cases us)
    case Nil
    then show ?thesis using us(1) assms(1) by simp
  next
    case (Cons u us')
    then have "u = c" using us(2) by simp
    then show ?thesis using us(1) Cons assms(2) by simp
  qed
qed

subsection \<open>Lines\<close>

lemma line_split:
  assumes "CHR 0x0A \<notin> set pre"
  shows "has_line (pre @ CHR 0x0A # rest)"
    and "first_line (pre @ CHR 0x0A # rest) = pre @ [CHR 0x0A]"
    and "after_line (pre @ CHR 0x0A # rest) = rest"
proof -
  show "has_line (pre @ CHR 0x0A # rest)" by (simp add: has_line_def)
  have t: "takeWhile (\<lambda>c. c \<noteq> CHR 0x0A) (pre @ CHR 0x0A # rest) = pre"
    using assms by (induction pre) auto
  have d: "dropWhile (\<lambda>c. c \<noteq> CHR 0x0A) (pre @ CHR 0x0A # rest) = CHR 0x0A # rest"
    using assms by (induction pre) auto
  show "first_line (pre @ CHR 0x0A # rest) = pre @ [CHR 0x0A]"
    by (simp only: first_line_def t)
  show "after_line (pre @ CHR 0x0A # rest) = rest"
    by (simp only: after_line_def d) simp
qed


subsection \<open>The boundary\<close>

lemma two_digits_mem:
  "a < length H \<Longrightarrow> b < length H \<Longrightarrow> set [H ! a, H ! b] \<subseteq> set H"
  by simp

lemma hex_byte_chars: "set (hex_byte c) \<subseteq> set ''0123456789abcdef''"
proof -
  have l: "length ''0123456789abcdef'' = 16" by simp
  have a: "(of_char c :: nat) div 16 < 16"
    using nat_of_char_less_256 [of c] by (simp add: less_mult_imp_div_less)
  have b: "(of_char c :: nat) mod 16 < 16" by simp
  show ?thesis
    unfolding hex_byte_def by (rule two_digits_mem) (simp_all only: l a b)
qed

lemma concat_map_subset:
  "(\<And>c. set (f c) \<subseteq> A) \<Longrightarrow> set (concat (map f xs)) \<subseteq> A"
  by auto

lemma randomBoundary_chars: "set (randomBoundary rnd) \<subseteq> set ''0123456789abcdef''"
  unfolding randomBoundary_def by (rule concat_map_subset) (rule hex_byte_chars)

lemma not_in_boundary:
  assumes "c \<notin> set ''0123456789abcdef''"
  shows "c \<notin> set (randomBoundary rnd)"
  using assms randomBoundary_chars [of rnd] by (meson subsetD)

lemma boundary_free:
  "CHR 0x0D \<notin> set (randomBoundary rnd)"
  "CHR 0x0A \<notin> set (randomBoundary rnd)"
  "CHR ''-'' \<notin> set (randomBoundary rnd)"
  by (rule not_in_boundary, simp)+

lemma randomBoundary_length: "length (randomBoundary rnd) = 2 * length rnd"
  by (induction rnd) (simp_all add: randomBoundary_def hex_byte_def)

subsection \<open>The steps of the reader on a body that Create builds\<close>

lemma opening_line:
  assumes "CHR 0x0A \<notin> set b"
  shows "next_boundary b CRLF 0 False (''--'' @ b @ CRLF @ rest) = PartFollows CRLF rest"
proof -
  have l: "CHR 0x0A \<notin> set (''--'' @ b @ [CHR 0x0D])" using assms by simp
  have e: "''--'' @ b @ CRLF @ rest = (''--'' @ b @ [CHR 0x0D]) @ CHR 0x0A # rest"
    by (simp add: CRLF_def)
  have f: "first_line (''--'' @ b @ CRLF @ rest) = (''--'' @ b) @ CRLF"
    unfolding e line_split(2) [OF l] by (simp add: CRLF_def)
  have a: "after_line (''--'' @ b @ CRLF @ rest) = rest"
    unfolding e by (rule line_split(3) [OF l])
  have h: "has_line (''--'' @ b @ CRLF @ rest)"
    unfolding e by (rule line_split(1) [OF l])
  have s: "skipLWSPChar CRLF = CRLF" by (simp add: skipLWSPChar_def CRLF_def)
  have dr: "drop (length (''--'' @ b)) ((''--'' @ b) @ CRLF) = CRLF" by simp
  have ne: "CRLF \<noteq> [CHR 0x0A]" by (simp add: CRLF_def)
  have n: "nl_after b CRLF 0 ((''--'' @ b) @ CRLF) = CRLF"
    unfolding nl_after_def dr s using ne by simp
  have d: "isBoundaryDelimiterLine b CRLF 0 ((''--'' @ b) @ CRLF)"
    unfolding isBoundaryDelimiterLine_def n dr s by simp
  show ?thesis
    by (subst next_boundary.simps) (simp only: h f a d n if_True if_False not_True_eq_False)
qed


lemma header_of_part:
  "populateHeaders (''Content-Disposition: '' @ disposition @ CRLF @ CRLF @ rest) =
     Some ([(''Content-Disposition'', disposition)], rest)"
proof -
  let ?x = "''Content-Disposition: '' @ disposition @ CRLF @ CRLF @ rest"
  let ?l = "''Content-Disposition: '' @ disposition @ CRLF"
  have l: "CHR 0x0A \<notin> set (''Content-Disposition: '' @ disposition @ [CHR 0x0D])"
    by (simp add: disposition_def DQ_def)
  have l2: "CHR 0x0A \<notin> set [CHR 0x0D]" by simp
  have h1: "has_line ?x" by (simp add: has_line_def CRLF_def)
  have f1: "first_line ?x = ?l"
    using line_split(2) [OF l, of "CRLF @ rest"] by (simp add: CRLF_def)
  have a1: "after_line ?x = CRLF @ rest"
    using line_split(3) [OF l, of "CRLF @ rest"] by (simp add: CRLF_def)
  have h2: "has_line (CRLF @ rest)" by (simp add: has_line_def CRLF_def)
  have f2: "first_line (CRLF @ rest) = CRLF"
    using line_split(2) [OF l2, of rest] by (simp add: CRLF_def)
  have a2: "after_line (CRLF @ rest) = rest"
    using line_split(3) [OF l2, of rest] by (simp add: CRLF_def)
  have t1: "header_text ?l = ''Content-Disposition: '' @ disposition"
    by (simp add: header_text_def trim_def disposition_def DQ_def CRLF_def)
  have t2: "header_text CRLF = []"
    by (simp add: header_text_def trim_def CRLF_def)
  have ne: "''Content-Disposition: '' @ disposition \<noteq> []" by simp
  have c: "CHR '':'' \<in> set (''Content-Disposition: '' @ disposition)" by simp
  have k: "header_line (''Content-Disposition: '' @ disposition) =
             (''Content-Disposition'', disposition)"
    by (simp add: header_line_def disposition_def DQ_def)
  have blank: "readMIMEHeader (CRLF @ rest) = Some ([], rest)"
    by (subst readMIMEHeader.simps)
       (simp only: h2 f2 a2 t2 if_True if_False not_True_eq_False simp_thms)
  have r: "readMIMEHeader ?x = Some ([(''Content-Disposition'', disposition)], rest)"
    by (subst readMIMEHeader.simps)
       (simp only: h1 f1 a1 t1 ne c k blank if_True if_False not_True_eq_False simp_thms
          option.map prod.case)
  have "populateHeaders ?x = readMIMEHeader ?x"
    by (simp add: populateHeaders_def)
  then show ?thesis by (simp only: r)
qed

lemma body_of_part:
  assumes "CHR 0x0D \<notin> set b" "CHR ''-'' \<notin> set b"
    and "\<not> prefix (''--'' @ b) bytes"
    and "\<not> sublist (CRLF @ ''--'' @ b) bytes"
  shows "part_body CRLF b (bytes @ CRLF @ ''--'' @ b @ ''--'' @ CRLF) =
           Some (bytes, CRLF @ ''--'' @ b @ ''--'' @ CRLF)"
proof -
  let ?d = "CRLF @ ''--'' @ b"
  let ?x = "bytes @ CRLF @ ''--'' @ b @ ''--'' @ CRLF"
  have np: "\<not> prefix (''--'' @ b) ?x"
    using no_prefix_before_foreign [OF assms(3), of "CHR 0x0D"] assms(1)
    by (simp add: CRLF_def)
  have hd: "hd ?d \<notin> set (tl ?d)" using assms(1) by (simp add: CRLF_def)
  have "Index ?d (bytes @ ?d @ (''--'' @ CRLF)) = Some (bytes, ''--'' @ CRLF)"
    by (rule Index_unique [OF _ hd assms(4)]) (simp add: CRLF_def)
  then have i: "Index ?d ?x = Some (bytes, ''--'' @ CRLF)" by simp
  have m: "matchAfterPrefix (''--'' @ CRLF)" by (simp add: matchAfterPrefix_def)
  have "scan_nl CRLF b ?x = Some (bytes, CRLF @ ''--'' @ b @ ''--'' @ CRLF)"
    by (subst scan_nl.simps) (simp only: i m option.case prod.case if_True)
  then show ?thesis unfolding part_body_def by (simp only: np if_False)
qed

lemma closing_lines:
  assumes "CHR 0x0A \<notin> set b"
  shows "next_boundary b CRLF (Suc 0) False (CRLF @ ''--'' @ b @ ''--'' @ CRLF) = EndOfParts"
proof -
  let ?f = "''--'' @ b @ ''--'' @ CRLF"
  have l1: "CHR 0x0A \<notin> set [CHR 0x0D]" by simp
  have l2: "CHR 0x0A \<notin> set (''--'' @ b @ ''--'' @ [CHR 0x0D])" using assms by simp
  have h1: "has_line (CRLF @ ?f)" by (simp add: has_line_def CRLF_def)
  have f1: "first_line (CRLF @ ?f) = CRLF"
    using line_split(2) [OF l1, of ?f] by (simp add: CRLF_def)
  have a1: "after_line (CRLF @ ?f) = ?f"
    using line_split(3) [OF l1, of ?f] by (simp add: CRLF_def)
  have h2: "has_line ?f" by (simp add: has_line_def CRLF_def)
  have f2: "first_line ?f = ?f"
    using line_split(2) [OF l2, of "[]"] by (simp add: CRLF_def)
  have s: "skipLWSPChar CRLF = CRLF" by (simp add: skipLWSPChar_def CRLF_def)
  have s2: "skipLWSPChar (''--'' @ CRLF) = ''--'' @ CRLF" by (simp add: skipLWSPChar_def)
  have nd1: "\<not> isBoundaryDelimiterLine b CRLF (Suc 0) CRLF"
    by (simp add: isBoundaryDelimiterLine_def CRLF_def)
  have nf1: "\<not> isFinalBoundary b CRLF CRLF"
    by (simp add: isFinalBoundary_def CRLF_def)
  have dr: "drop (length (''--'' @ b)) ?f = ''--'' @ CRLF" by simp
  have nd2: "\<not> isBoundaryDelimiterLine b CRLF (Suc 0) ?f"
    unfolding isBoundaryDelimiterLine_def nl_after_def dr s2 by (simp add: CRLF_def)
  have dr2: "drop (length (''--'' @ b @ ''--'')) ?f = CRLF" by simp
  have p2: "prefix (''--'' @ b @ ''--'') ?f" by simp
  have fin: "isFinalBoundary b CRLF ?f"
    unfolding isFinalBoundary_def dr2 s using p2 by simp
  have last: "next_boundary b CRLF (Suc 0) True ?f = EndOfParts"
    by (subst next_boundary.simps)
       (simp only: h2 f2 nd2 fin if_True if_False not_True_eq_False simp_thms)
  show ?thesis
    by (subst next_boundary.simps)
       (simp only: h1 f1 a1 nd1 nf1 last if_True if_False not_True_eq_False simp_thms
          nat.simps)
qed

lemma ReadAll_body:
  assumes "b \<noteq> []" "CHR 0x0D \<notin> set b" "CHR 0x0A \<notin> set b" "CHR ''-'' \<notin> set b"
    and "\<not> prefix (''--'' @ b) bytes"
    and "\<not> sublist (CRLF @ ''--'' @ b) bytes"
  shows "ReadAll b
           (''--'' @ b @ CRLF
            @ ''Content-Disposition: '' @ disposition @ CRLF @ CRLF
            @ bytes
            @ CRLF @ ''--'' @ b @ ''--'' @ CRLF) =
         Some [\<lparr> PartHeader = [(''Content-Disposition'', disposition)], content = bytes \<rparr>]"
proof -
  have e: "read_parts b CRLF (Suc 0) (CRLF @ ''--'' @ b @ ''--'' @ CRLF) = Some []"
    by (subst read_parts.simps) (simp only: closing_lines [OF assms(3)] delimiter.case)
  have "read_parts b CRLF 0
          (''--'' @ b @ CRLF @ ''Content-Disposition: '' @ disposition @ CRLF @ CRLF
            @ bytes @ CRLF @ ''--'' @ b @ ''--'' @ CRLF) =
        Some [\<lparr> PartHeader = [(''Content-Disposition'', disposition)], content = bytes \<rparr>]"
    by (subst read_parts.simps)
       (simp only: opening_line [OF assms(3)] header_of_part
          body_of_part [OF assms(2) assms(4) assms(5) assms(6)] e
          delimiter.case option.case prod.case option.map)
  then show ?thesis using assms(1) by (simp only: ReadAll_def if_False)
qed

subsection \<open>The body that Create builds, and what a reader makes of it\<close>

text \<open>
  Whatever the stream holds, the body is the opening delimiter line, the one header
  line, an empty line, the bytes of the stream as they are, and the closing delimiter.
\<close>

lemma Create_request_body:
  assumes "ImportAPI_Create_request e ctx obj (Reader bytes None) = Inr rq"
  shows "ReqBody rq =
           Some (''--'' @ randomBoundary (random_bytes e) @ CRLF
                 @ ''Content-Disposition: '' @ disposition @ CRLF @ CRLF
                 @ bytes
                 @ CRLF @ ''--'' @ randomBoundary (random_bytes e) @ ''--'' @ CRLF)"
  using assms
  by (auto simp: ImportAPI_Create_request_def NewRequest_def NewRequestWithContext_def Let_def
        Header_Add_def NewWriter_def CreatePart_def Write_def Close_def disposition_def DQ_def
        split: option.splits sum.splits)

lemma form_name_file:
  "FormName \<lparr> PartHeader = [(''Content-Disposition'', disposition)], content = c \<rparr> = ''file''"
  by (simp add: FormName_def parseContentDisposition_def disposition_def DQ_def media_param_def
        unquote_def trim_def)

lemma file_name_import:
  "FileName \<lparr> PartHeader = [(''Content-Disposition'', disposition)], content = c \<rparr> =
     ''import.csv''"
  by (simp add: FileName_def parseContentDisposition_def disposition_def DQ_def media_param_def
        unquote_def trim_def Base_def)

text \<open>
  Claim C9, as stated, fails on the code.  The writer copies the stream into the part
  without looking at it, and its boundary is drawn at random, not chosen against the
  content.  When the random source yields thirty zero bytes the boundary is sixty
  zeros; a stream that holds the closing delimiter of that boundary between the bytes
  \<^verbatim>\<open>a\<close> and \<^verbatim>\<open>b\<close> is written verbatim, and reading the body back gives one part
  whose content is \<^verbatim>\<open>a\<close>, not the stream.
\<close>

theorem multipart_delimiter_in_stream:
  "map_option (map content)
     (ReadAll (randomBoundary (random_bytes (client (json_response 200 JNull))))
        (the (ReqBody (projr (ImportAPI_Create_request (client (json_response 200 JNull)) None
           Leads
           (Reader (''a'' @ CRLF @ ''--'' @ replicate 60 (CHR ''0'') @ ''--'' @ CRLF @ ''b'')
              None)))))) =
     Some [''a'']
   \<and> map_option (map content)
     (ReadAll (randomBoundary (random_bytes (client (json_response 200 JNull))))
        (the (ReqBody (projr (ImportAPI_Create_request (client (json_response 200 JNull)) None
           Leads
           (Reader (''a'' @ CRLF @ ''--'' @ replicate 60 (CHR ''0'') @ ''--'' @ CRLF @ ''b'')
              None)))))) \<noteq>
     Some [''a'' @ CRLF @ ''--'' @ replicate 60 (CHR ''0'') @ ''--'' @ CRLF @ ''b'']"
  by code_simp

text \<open>
  The reader also takes a \<^verbatim>\<open>--boundary\<close> at the very start of a part's body for a
  delimiter, with no line break before it: under the same draw, a stream that begins with
  the closing delimiter line reads back as one empty part.
\<close>

lemma multipart_delimiter_at_start:
  "map_option (map content)
     (ReadAll (randomBoundary (random_bytes (client (json_response 200 JNull))))
        (the (ReqBody (projr (ImportAPI_Create_request (client (json_response 200 JNull)) None
           Leads
           (Reader (''--'' @ replicate 60 (CHR ''0'') @ ''--'' @ CRLF @ ''b'') None)))))) =
     Some [[]]"
  by code_simp

text \<open>
  Claim C9, amended.  For every finite input byte stream that neither begins with the
  writer's delimiter (two dashes, the boundary) nor holds it after a line break (a
  carriage return, a line feed, two dashes, the boundary), the multipart body built by
  \<open>Create\<close> holds the stream's bytes verbatim between the part's header and the
  closing delimiter, and reads back as exactly one part, whose form field name is
  \<^verbatim>\<open>file\<close>, whose file name is \<^verbatim>\<open>import.csv\<close> and whose content is the stream's bytes.
  The boundary is the one the writer makes of its draw of thirty random bytes.
\<close>

theorem multipart_round_trip:
  assumes "ImportAPI_Create_request e ctx obj (Reader bytes None) = Inr rq"
    and "length (random_bytes e) = 30"
    and "\<not> prefix (''--'' @ randomBoundary (random_bytes e)) bytes"
    and "\<not> sublist (CRLF @ ''--'' @ randomBoundary (random_bytes e)) bytes"
  shows "\<exists>body p. ReqBody rq = Some body
           \<and> body = ''--'' @ randomBoundary (random_bytes e) @ CRLF
                    @ ''Content-Disposition: '' @ disposition @ CRLF @ CRLF
                    @ bytes
                    @ CRLF @ ''--'' @ randomBoundary (random_bytes e) @ ''--'' @ CRLF
           \<and> ReadAll (randomBoundary (random_bytes e)) body = Some [p]
           \<and> FormName p = ''file'' \<and> FileName p = ''import.csv'' \<and> content p = bytes"
proof -
  let ?b = "randomBoundary (random_bytes e)"
  have "length ?b = 60" using assms(2) by (simp add: randomBoundary_length)
  then have ne: "?b \<noteq> []" by auto
  have r: "ReadAll ?b
           (''--'' @ ?b @ CRLF @ ''Content-Disposition: '' @ disposition @ CRLF @ CRLF
            @ bytes @ CRLF @ ''--'' @ ?b @ ''--'' @ CRLF) =
         Some [\<lparr> PartHeader = [(''Content-Disposition'', disposition)], content = bytes \<rparr>]"
    by (rule ReadAll_body [OF ne boundary_free assms(3) assms(4)])
  show ?thesis
    using Create_request_body [OF assms(1)] r form_name_file [of bytes] file_name_import [of bytes]
    by simp
qed

text \<open>A two-line CSV file, sent by the example client and read back.\<close>

theorem multipart_round_trip_witness:
  "length (random_bytes (client (json_response 200 JNull))) = 30
   \<and> \<not> prefix (''--'' @ randomBoundary (random_bytes (client (json_response 200 JNull))))
        (''email,firstName'' @ CRLF @ ''a@x.com,Ann'' @ CRLF)
   \<and> \<not> sublist (CRLF @ ''--'' @ randomBoundary (random_bytes (client (json_response 200 JNull))))
        (''email,firstName'' @ CRLF @ ''a@x.com,Ann'' @ CRLF)
   \<and> map_option (map (\<lambda>p. (FormName p, FileName p, content p)))
        (ReadAll (randomBoundary (random_bytes (client (json_response 200 JNull))))
           (the (ReqBody (projr (ImportAPI_Create_request (client (json_response 200 JNull)) None
              Leads (Reader (''email,firstName'' @ CRLF @ ''a@x.com,Ann'' @ CRLF) None)))))) =
       Some [(''file'', ''import.csv'', ''email,firstName'' @ CRLF @ ''a@x.com,Ann'' @ CRLF)]"
proof -
  let ?e = "client (json_response 200 JNull)"
  let ?bytes = "''email,firstName'' @ CRLF @ ''a@x.com,Ann'' @ CRLF"
  let ?rq = "projr (ImportAPI_Create_request ?e None Leads (Reader ?bytes None))"
  have h1: "ImportAPI_Create_request ?e None Leads (Reader ?bytes None) = Inr ?rq"
    by (rule Create_request_client)
  have h2: "length (random_bytes ?e) = 30" by (simp add: client_def)
  have h3: "\<not> prefix (''--'' @ randomBoundary (random_bytes ?e)) ?bytes"
    by code_simp
  have h4: "\<not> sublist (CRLF @ ''--'' @ randomBoundary (random_bytes ?e)) ?bytes"
    by code_simp
  from multipart_round_trip [OF h1 h2 h3 h4] obtain body p where
    "ReqBody ?rq = Some body" "ReadAll (randomBoundary (random_bytes ?e)) body = Some [p]"
    "FormName p = ''file''" "FileName p = ''import.csv''" "content p = ?bytes"
    by blast
  then show ?thesis using h2 h3 h4 by simp
qed

section \<open>Properties of the dynamic record decoder\<close>

lemma field_names:
  "map fieldName CustomObjectResult_fields = [''MarketoGUID'', ''Sequence'', ''Fields'']"
  "map is_remain CustomObjectResult_fields = [False, False, True]"
  by (simp_all add: CustomObjectResult_fields_def fieldName_def is_remain_def)

text \<open>
  Whatever the record, \<open>Sequence\<close> is set only from a key that equals the Go field
  name up to case; no other key, \<^verbatim>\<open>seq\<close> included, reaches it.
\<close>

lemma find_key_Sequence_None:
  assumes "\<forall>k \<in> fst ` set l. \<not> EqualFold k ''Sequence''"
  shows "find_key l ''Sequence'' = None"
proof -
  have "map_of l ''Sequence'' = None"
  proof (rule ccontr)
    assume "map_of l ''Sequence'' \<noteq> None"
    then have "''Sequence'' \<in> fst ` set l" by (metis map_of_eq_None_iff)
    moreover have "EqualFold ''Sequence'' ''Sequence''" unfolding EqualFold_def by (rule refl)
    ultimately show False using assms by blast
  qed
  moreover have "find (\<lambda>(k, v). EqualFold k ''Sequence'') l = None"
    using assms by (auto simp: find_None_iff)
  ultimately show ?thesis by (simp add: find_key_def)
qed

lemma Decode_without_Sequence_key:
  assumes "\<forall>k \<in> fst ` set l. \<not> EqualFold k ''Sequence''"
    and "Decode l CustomObjectResult_zero = Inr r"
  shows "Sequence r = 0"
  using assms(2) find_key_Sequence_None [OF assms(1)]
  by (auto simp: Decode_def CustomObjectResult_fields_def is_remain_def fieldName_def
        CustomObjectResult_set_def CustomObjectResult_zero_def Let_def
        split: option.splits prod.splits sum.splits if_splits)

text \<open>
  Claim C1 does not hold of the code.  The struct names the wire keys in its \<^verbatim>\<open>json\<close>
  tags, but \<^verbatim>\<open>mapstructure.Decode\<close> reads \<^verbatim>\<open>mapstructure\<close> tags and otherwise goes by
  the Go field name, compared without regard to case.  So \<^verbatim>\<open>marketoGUID\<close> reaches
  \<open>MarketoGUID\<close>, while \<^verbatim>\<open>seq\<close> matches no field: \<open>Sequence\<close> keeps its zero value
  and \<^verbatim>\<open>seq\<close> lands in the residual map with the other keys.  The response below
  carries the record of the spec's example.
\<close>

theorem Filter_seq_not_promoted:
  "CustomObjects_Filter
     (client (json_response 200
        (JObject [(''requestId'', JString ''185d6#14b51985ff0''), (''success'', JBool True),
                  (''result'', JArray [JObject [(''marketoGUID'', JString ''g1''),
                       (''seq'', JNumber 3), (''color'', JString ''red''),
                       (''size'', JString ''L'')]]),
                  (''nextPageToken'', JString ''PS5VL5WD4UOWGOUCJR6VY7JQO2KUXL7BGBYXL4XH==='')])))
     None ''car_c'' (Inr ''filterType=vin&filterValues=19UYA31581L000000'') =
   Inr ([\<lparr> MarketoGUID = ''g1'', Sequence = 0,
          Fields = map_of [(''seq'', JNumber 3), (''color'', JString ''red''),
                           (''size'', JString ''L'')] \<rparr>],
        ''PS5VL5WD4UOWGOUCJR6VY7JQO2KUXL7BGBYXL4XH==='')"
  by (simp add: CustomObjects_Filter_def CustomObjects_Filter_request_def
      CustomObjects_Filter_response_def client_def json_response_def NewRequest_def
      NewRequestWithContext_def Background_def Header_Add_def StatusOK_def Decode_Response_def
      Response_zero_def json_field_def EqualFold_def to_lower_def Response_set_def
      unmarshal_string_def Unmarshal_raw_def Decode_def CustomObjectResult_fields_def
      is_remain_def fieldName_def find_key_def CustomObjectResult_set_def decodeString_def
      decodeInt_def CustomObjectResult_zero_def)

end
